theory Spec2Isabelle
  imports Complex_Main "HOL-Library.AList"
begin

section \<open>Python values, strings and library behaviour\<close>

text \<open>
  A Python \<open>str\<close> is a sequence of Unicode code points; it is modelled as a list of
  natural numbers. String literals of the source are written with \<open>py\<close>.
\<close>

type_synonym pystr = "nat list"

definition py :: "string \<Rightarrow> pystr" where
  "py s = map of_char s"

text \<open>
  The behaviour of the libraries that the source calls but does not fix: the Unicode
  tables beyond ASCII (lowercase mapping, \<open>isspace\<close>, \<open>isalnum\<close>, \<open>isdecimal\<close>) and the order
  in which \<open>numpy.argsort\<close> (an unstable sort by default) returns the indices.
\<close>

record pylib =
  u_lower :: "nat \<Rightarrow> nat list"
  u_isspace :: "nat \<Rightarrow> bool"
  u_isalnum :: "nat \<Rightarrow> bool"
  u_isdecimal :: "nat \<Rightarrow> bool"
  np_argsort :: "real list \<Rightarrow> nat list"

text \<open>The ASCII part of the tables is fixed; the rest comes from \<open>pylib\<close>.\<close>

definition is_space :: "pylib \<Rightarrow> nat \<Rightarrow> bool" where
  "is_space L c = (if c < 128 then (9 \<le> c \<and> c \<le> 13) \<or> (28 \<le> c \<and> c \<le> 32) else u_isspace L c)"

definition is_decimal :: "pylib \<Rightarrow> nat \<Rightarrow> bool" where
  "is_decimal L c = (if c < 128 then 48 \<le> c \<and> c \<le> 57 else u_isdecimal L c)"

definition is_ascii_lower :: "nat \<Rightarrow> bool" where
  "is_ascii_lower c = (97 \<le> c \<and> c \<le> 122)"

definition is_ascii_upper :: "nat \<Rightarrow> bool" where
  "is_ascii_upper c = (65 \<le> c \<and> c \<le> 90)"

definition is_word :: "pylib \<Rightarrow> nat \<Rightarrow> bool" where
  "is_word L c = (if c < 128
     then (48 \<le> c \<and> c \<le> 57) \<or> is_ascii_upper c \<or> is_ascii_lower c \<or> c = 95
     else u_isalnum L c)"

definition lower_cp :: "pylib \<Rightarrow> nat \<Rightarrow> nat list" where
  "lower_cp L c = (if c < 128 then [if is_ascii_upper c then c + 32 else c] else u_lower L c)"

text \<open>\<open>str.lower()\<close>\<close>

definition py_lower :: "pylib \<Rightarrow> pystr \<Rightarrow> pystr" where
  "py_lower L s = concat (map (lower_cp L) s)"

text \<open>\<open>str.strip()\<close>: leading and trailing whitespace removed.\<close>

definition py_strip :: "pylib \<Rightarrow> pystr \<Rightarrow> pystr" where
  "py_strip L s = rev (dropWhile (is_space L) (rev (dropWhile (is_space L) s)))"

text \<open>\<open>str.strip(chars)\<close> for a single character, as in \<open>cls.strip('"')\<close>.\<close>

definition py_strip_char :: "nat \<Rightarrow> pystr \<Rightarrow> pystr" where
  "py_strip_char q s = rev (dropWhile (\<lambda>c. c = q) (rev (dropWhile (\<lambda>c. c = q) s)))"

definition strip_quotes :: "pystr \<Rightarrow> pystr" where
  "strip_quotes s = py_strip_char 34 s"

text \<open>\<open>str.split()\<close>: the maximal runs of non-whitespace characters.\<close>

fun split_acc :: "(nat \<Rightarrow> bool) \<Rightarrow> pystr \<Rightarrow> pystr \<Rightarrow> pystr list" where
  "split_acc sp acc [] = (if acc = [] then [] else [acc])"
| "split_acc sp acc (c # cs) =
     (if sp c then (if acc = [] then split_acc sp [] cs else acc # split_acc sp [] cs)
      else split_acc sp (acc @ [c]) cs)"

definition py_split :: "pylib \<Rightarrow> pystr \<Rightarrow> pystr list" where
  "py_split L s = split_acc (is_space L) [] s"

section \<open>Regular expressions of the \<open>re\<close> module\<close>

text \<open>
  The fragment of the pattern language that the source uses: a character class, a greedy
  star over a character class, the word boundary \<open>\b\<close>, sequence and ordered alternation.
\<close>

datatype re = Eps | Cls "nat \<Rightarrow> bool" | Star "nat \<Rightarrow> bool" | WordB | Seq re re | Alt re re

fun rsize :: "re \<Rightarrow> nat" where
  "rsize (Seq a b) = Suc (rsize a + rsize b)"
| "rsize (Alt a b) = Suc (rsize a + rsize b)"
| "rsize _ = 1"

text \<open>\<open>\b\<close>: exactly one of the characters before and after the position is a word character.\<close>

definition word_boundary :: "(nat \<Rightarrow> bool) \<Rightarrow> nat option \<Rightarrow> pystr \<Rightarrow> bool" where
  "word_boundary w prev s =
     ((case prev of None \<Rightarrow> False | Some c \<Rightarrow> w c) \<noteq> (case s of [] \<Rightarrow> False | c # _ \<Rightarrow> w c))"

text \<open>
  The backtracking matcher: \<open>re_match w k prev s\<close> matches the patterns of the stack \<open>k\<close> one
  after the other at the start of \<open>s\<close> (\<open>prev\<close> is the character before it) and returns the
  number of characters consumed by the first match in priority order: the left alternative
  before the right one, a longer repetition before a shorter one.
\<close>

function re_match :: "(nat \<Rightarrow> bool) \<Rightarrow> re list \<Rightarrow> nat option \<Rightarrow> pystr \<Rightarrow> nat option" where
  "re_match w [] prev s = Some 0"
| "re_match w (Eps # k) prev s = re_match w k prev s"
| "re_match w (Cls p # k) prev [] = None"
| "re_match w (Cls p # k) prev (c # cs) =
     (if p c then map_option Suc (re_match w k (Some c) cs) else None)"
| "re_match w (Star p # k) prev [] = re_match w k prev []"
| "re_match w (Star p # k) prev (c # cs) =
     (if p c
      then (case re_match w (Star p # k) (Some c) cs of
              Some n \<Rightarrow> Some (Suc n)
            | None \<Rightarrow> re_match w k prev (c # cs))
      else re_match w k prev (c # cs))"
| "re_match w (WordB # k) prev s =
     (if word_boundary w prev s then re_match w k prev s else None)"
| "re_match w (Seq a b # k) prev s = re_match w (a # b # k) prev s"
| "re_match w (Alt a b # k) prev s =
     (case re_match w (a # k) prev s of
        Some n \<Rightarrow> Some n
      | None \<Rightarrow> re_match w (b # k) prev s)"
  by pat_completeness auto
termination
  by (relation "inv_image (less_than <*lex*> less_than)
        (\<lambda>(w, k, prev, s). (sum_list (map rsize k), length s))") auto

text \<open>
  \<open>re.sub(pattern, repl, s)\<close>: scan from the left; where the pattern matches, emit \<open>repl\<close>
  and go on after the match; elsewhere copy the character. An empty match emits \<open>repl\<close>
  and copies the character (no pattern of the source can match the empty string).
\<close>

function re_sub :: "(nat \<Rightarrow> bool) \<Rightarrow> re \<Rightarrow> pystr \<Rightarrow> nat option \<Rightarrow> pystr \<Rightarrow> pystr" where
  "re_sub w r repl prev [] =
     (case re_match w [r] prev [] of Some _ \<Rightarrow> repl | None \<Rightarrow> [])"
| "re_sub w r repl prev (c # cs) =
     (case re_match w [r] prev (c # cs) of
        None \<Rightarrow> c # re_sub w r repl (Some c) cs
      | Some 0 \<Rightarrow> repl @ c # re_sub w r repl (Some c) cs
      | Some (Suc n) \<Rightarrow> repl @ re_sub w r repl (Some (last (c # take n cs))) (drop n cs))"
  by pat_completeness auto
termination
  by (relation "measure (\<lambda>(w, r, repl, prev, s). length s)") auto

definition py_re_sub :: "pylib \<Rightarrow> re \<Rightarrow> pystr \<Rightarrow> pystr \<Rightarrow> pystr" where
  "py_re_sub L r repl s = re_sub (is_word L) r repl None s"

subsection \<open>The patterns of \<open>clean_text_harmonized\<close>\<close>

fun lit :: "string \<Rightarrow> re" where
  "lit [] = Eps"
| "lit [c] = Cls (\<lambda>x. x = of_char c)"
| "lit (c # cs) = Seq (Cls (\<lambda>x. x = of_char c)) (lit cs)"

definition rplus :: "(nat \<Rightarrow> bool) \<Rightarrow> re" where
  "rplus p = Seq (Cls p) (Star p)"

definition non_space :: "pylib \<Rightarrow> nat \<Rightarrow> bool" where
  "non_space L c = (\<not> is_space L c)"

text \<open>\<^verbatim>\<open>http\S+|www\S+|\S+\.com\S+|rss\s*2\.0|\bcomments\b|\bpinging\b|filed under\b\<close>\<close>

definition pat_noise :: "pylib \<Rightarrow> re" where
  "pat_noise L =
     Alt (Seq (lit ''http'') (rplus (non_space L)))
    (Alt (Seq (lit ''www'') (rplus (non_space L)))
    (Alt (Seq (rplus (non_space L)) (Seq (lit ''.com'') (rplus (non_space L))))
    (Alt (Seq (lit ''rss'') (Seq (Star (is_space L)) (lit ''2.0'')))
    (Alt (Seq WordB (Seq (lit ''comments'') WordB))
    (Alt (Seq WordB (Seq (lit ''pinging'') WordB))
         (Seq (lit ''filed under'') WordB))))))"

text \<open>\<^verbatim>\<open>\b\d+\s*(read|file|link)\S*\<close>\<close>

definition pat_numbered :: "pylib \<Rightarrow> re" where
  "pat_numbered L =
     Seq WordB (Seq (rplus (is_decimal L)) (Seq (Star (is_space L))
       (Seq (Alt (lit ''read'') (Alt (lit ''file'') (lit ''link''))) (Star (non_space L)))))"

text \<open>\<^verbatim>\<open>[^\w\s]\<close>\<close>

definition pat_punct :: "pylib \<Rightarrow> re" where
  "pat_punct L = Cls (\<lambda>c. \<not> is_word L c \<and> \<not> is_space L c)"

text \<open>\<^verbatim>\<open>\d+\<close>\<close>

definition pat_digits :: "pylib \<Rightarrow> re" where
  "pat_digits L = rplus (is_decimal L)"

text \<open>\<^verbatim>\<open>[^a-zA-Z\s]\<close>\<close>

definition non_letter :: "pylib \<Rightarrow> nat \<Rightarrow> bool" where
  "non_letter L c = (\<not> is_ascii_lower c \<and> \<not> is_ascii_upper c \<and> \<not> is_space L c)"

definition pat_nonletter :: "pylib \<Rightarrow> re" where
  "pat_nonletter L = Cls (non_letter L)"

text \<open>\<^verbatim>\<open>\s+\<close>\<close>

definition pat_spaces :: "pylib \<Rightarrow> re" where
  "pat_spaces L = rplus (is_space L)"

section \<open>Preprocessing function\<close>

datatype py_error = AttributeError | IndexError | ValueError | TypeError

text \<open>Sequencing of computations that may raise.\<close>

definition ebind :: "py_error + 'a \<Rightarrow> ('a \<Rightarrow> py_error + 'b) \<Rightarrow> py_error + 'b" where
  "ebind m f = (case m of Inl e \<Rightarrow> Inl e | Inr x \<Rightarrow> f x)"

text \<open>
  The values that a caller can hand to \<open>clean_text_harmonized\<close>: \<open>None\<close>, a float NaN (both
  null for \<open>pd.isnull\<close>), a string, another scalar, or a non-empty list \<open>[x, ...]\<close> of
  scalars (\<open>PyList x xs\<close>).
\<close>

datatype pyatom = ANone | ANaN | AStr pystr | AInt int | AFloat real | ABool bool

datatype pyval =
  PyNone | PyNaN | PyStr pystr | PyInt int | PyFloat real | PyBool bool | PyList pyatom "pyatom list"

text \<open>
  \<open>pd.isnull\<close> returns a boolean for a scalar and the array of the elementwise answers
  for a list.
\<close>

datatype np_bool = NpBool bool | NpArray "bool list"

fun atom_isnull :: "pyatom \<Rightarrow> bool" where
  "atom_isnull ANone = True"
| "atom_isnull ANaN = True"
| "atom_isnull _ = False"

fun pd_isnull :: "pyval \<Rightarrow> np_bool" where
  "pd_isnull PyNone = NpBool True"
| "pd_isnull PyNaN = NpBool True"
| "pd_isnull (PyList x xs) = NpArray (map atom_isnull (x # xs))"
| "pd_isnull _ = NpBool False"

text \<open>
  The truth value that \<open>or\<close> and \<open>if\<close> take of the answer: that of an array with more than
  one element is ambiguous and raises \<open>ValueError\<close>.
\<close>

fun py_truth :: "np_bool \<Rightarrow> py_error + bool" where
  "py_truth (NpBool b) = Inr b"
| "py_truth (NpArray [b]) = Inr b"
| "py_truth (NpArray _) = Inl ValueError"

fun isinstance_str :: "pyval \<Rightarrow> bool" where
  "isinstance_str (PyStr _) = True"
| "isinstance_str _ = False"

definition clean_text_harmonized :: "pylib \<Rightarrow> pyval \<Rightarrow> py_error + pystr" where
  "clean_text_harmonized L v =
     ebind (py_truth (pd_isnull v)) (\<lambda>is_null.
       if is_null \<or> \<not> isinstance_str v then Inr []
       else case v of
         PyStr text \<Rightarrow>
           (let text = py_lower L text;
                text = py_re_sub L (pat_noise L) (py '' '') text;
                text = py_re_sub L (pat_numbered L) (py '' '') text;
                text = py_re_sub L (pat_punct L) (py '' '') text;
                text = py_re_sub L (pat_digits L) (py '' '') text;
                text = py_re_sub L (pat_nonletter L) (py '' '') text;
                text = py_re_sub L (pat_spaces L) (py '' '') text
            in Inr (py_strip L text))
       | _ \<Rightarrow> Inr [])"

section \<open>Numbers, errors and models\<close>

text \<open>
  Python floats are modelled as real numbers. \<open>round(x, n)\<close> rounds to \<open>n\<close> decimals, a tie
  going to the even neighbour.
\<close>

definition round_half_even :: "real \<Rightarrow> int" where
  "round_half_even y =
     (let f = \<lfloor>y\<rfloor>; d = y - of_int f
      in if d < 1 / 2 then f else if 1 / 2 < d then f + 1 else if even f then f else f + 1)"

definition py_round :: "real \<Rightarrow> nat \<Rightarrow> real" where
  "py_round x n = of_int (round_half_even (x * 10 ^ n)) / 10 ^ n"

text \<open>\<open>xs[i]\<close> for a non-negative index and \<open>list(xs).index(x)\<close>.\<close>

definition py_nth :: "'a list \<Rightarrow> nat \<Rightarrow> py_error + 'a" where
  "py_nth xs i = (if i < length xs then Inr (xs ! i) else Inl IndexError)"

fun py_index :: "'a list \<Rightarrow> 'a \<Rightarrow> py_error + nat" where
  "py_index [] x = Inl ValueError"
| "py_index (y # ys) x = (if y = x then Inr 0 else ebind (py_index ys x) (\<lambda>i. Inr (Suc i)))"

text \<open>
  A label is an integer (the 0/1 prediction of the binary branch) or a string (an element
  of \<open>classes_\<close>). \<open>decision_function(vector)[0]\<close> is a scalar margin (shape \<open>()\<close>) or a
  vector of per-class margins.
\<close>

datatype label = LInt int | LStr pystr

datatype decision = Scalar real | Vector "real list"

text \<open>
  A classifier with its optional capabilities (\<open>hasattr\<close> is \<open>\<noteq> None\<close>); \<open>'v\<close> is the type
  of feature vectors. The fields \<open>classes\<close> and \<open>coef\<close> are \<open>classes_\<close> and \<open>coef_\<close> of the
  source.
\<close>

record 'v classifier =
  predict_proba :: "('v \<Rightarrow> real list) option"
  decision_function :: "('v \<Rightarrow> decision) option"
  predict :: "'v \<Rightarrow> pystr"
  classes :: "pystr list"
  coef :: "real list list option"

record 'v vectorizer =
  transform :: "pystr \<Rightarrow> 'v"
  get_feature_names_out :: "pystr list"

text \<open>The global model variables.\<close>

record 'v models =
  binary_model :: "'v classifier"
  binary_vectorizer :: "'v vectorizer"
  granular_model :: "'v classifier"
  granular_vectorizer :: "'v vectorizer"

section \<open>Utility function for SVC confidence\<close>

text \<open>\<open>np.argmax\<close>: the first index of a maximal element.\<close>

fun argmax_from :: "nat \<Rightarrow> real \<Rightarrow> nat \<Rightarrow> real list \<Rightarrow> nat" where
  "argmax_from best bv i [] = best"
| "argmax_from best bv i (x # xs) =
     (if bv < x then argmax_from i x (Suc i) xs else argmax_from best bv (Suc i) xs)"

definition np_argmax :: "real list \<Rightarrow> py_error + nat" where
  "np_argmax xs = (case xs of [] \<Rightarrow> Inl ValueError | x # r \<Rightarrow> Inr (argmax_from 0 x 1 r))"

definition np_max :: "real list \<Rightarrow> real" where
  "np_max xs = fold max (tl xs) (hd xs)"

text \<open>
  A Python \<open>dict\<close> as an association list in insertion order: a key that is already there
  keeps its place and takes the new value.
\<close>

definition dict_of :: "('k \<times> 'a) list \<Rightarrow> ('k \<times> 'a) list" where
  "dict_of ps = foldl (\<lambda>d (k, v). AList.update k v d) [] ps"

text \<open>\<^verbatim>\<open>{cls.strip('"'): round(p*100, 2) for cls, p in zip(classes_, probs)}\<close>\<close>

definition class_confidences :: "pystr list \<Rightarrow> real list \<Rightarrow> (pystr \<times> real) list" where
  "class_confidences class_labels probs =
     dict_of (map (\<lambda>(cls, p). (strip_quotes cls, py_round (p * 100) 2)) (zip class_labels probs))"

definition softmax :: "real list \<Rightarrow> real list" where
  "softmax decision_scores =
     (let e_x = map (\<lambda>d. exp (d - np_max decision_scores)) decision_scores
      in map (\<lambda>e. e / sum_list e_x) e_x)"

text \<open>Returns: prediction, \<open>C_True\<close>, \<open>C_Predicted\<close>, \<open>all_class_confidences\<close>.\<close>

definition get_svc_confidence_fallback ::
  "'v classifier \<Rightarrow> 'v \<Rightarrow> py_error + (label \<times> real option \<times> real \<times> (pystr \<times> real) list option)" where
  "get_svc_confidence_fallback model vector =
     (case decision_function model of
        None \<Rightarrow> Inl AttributeError
      | Some df \<Rightarrow>
         (case df vector of
            Scalar decision_score \<Rightarrow>
              (let C_True = 1 / (1 + exp (- decision_score)) * 100;
                   prediction = (if 50 \<le> C_True then 1 else 0 :: int);
                   C_Predicted = (if prediction = 1 then C_True else 100 - C_True)
               in Inr (LInt prediction, Some C_True, C_Predicted, None))
          | Vector decision_scores \<Rightarrow>
              ebind (np_argmax decision_scores) (\<lambda>predicted_index.
              ebind (py_nth (classes model) predicted_index) (\<lambda>predicted_class.
                let softmax_probs = softmax decision_scores;
                    C_Predicted = softmax_probs ! predicted_index * 100;
                    all_class_confidences = class_confidences (classes model) softmax_probs
                in Inr (LStr predicted_class, None, C_Predicted, Some all_class_confidences)))))"

section \<open>Layered prediction\<close>

text \<open>The values of the response fields.\<close>

datatype field =
    FStr pystr
  | FNum real
  | FNone
  | FConf "(pystr \<times> real) list"
  | FWarn "(pystr \<times> pystr) list"
  | FFeats "(pystr \<times> real) list"

record response =
  binary_prediction :: pystr
  binary_confidence :: real
  C_True_confidence :: real
  granular_prediction :: pystr
  granular_confidence_top :: field
  granular_confidence_all :: field
  top_features_input :: field
  top_features_overall :: field

datatype payload = ErrorPayload "(pystr \<times> pystr) list" | Result response

definition NA :: pystr where
  "NA = py ''N/A''"

definition empty_input_error :: payload where
  "empty_input_error =
     ErrorPayload [(py ''error'', py ''Input text is empty or contains only non-alphanumeric characters.'')]"

definition no_probability_warning :: field where
  "no_probability_warning = FWarn [(py ''warning'', py ''No probability function available.'')]"

definition feature_support_not_available :: field where
  "feature_support_not_available = FStr (py ''Feature support not available.'')"

text \<open>
  Binary prediction and confidence (the \<open>if hasattr(binary_model, 'predict_proba')\<close> block):
  the prediction, \<open>C_True\<close> and \<open>bin_conf_predicted\<close>. A fallback without \<open>C_True\<close> makes
  \<open>round(C_True, 2)\<close> raise.
\<close>

definition binary_scores :: "'v classifier \<Rightarrow> 'v \<Rightarrow> py_error + (label \<times> real \<times> real)" where
  "binary_scores bm bin_vec =
     (case predict_proba bm of
        Some proba \<Rightarrow>
          ebind (py_nth (proba bin_vec) 1) (\<lambda>p1.
            let C_True = p1 * 100;
                bin_prediction = (if 50 \<le> C_True then 1 else 0 :: int);
                bin_conf_predicted = (if bin_prediction = 1 then C_True else 100 - C_True)
            in Inr (LInt bin_prediction, C_True, bin_conf_predicted))
      | None \<Rightarrow>
          ebind (get_svc_confidence_fallback bm bin_vec) (\<lambda>(prediction, C_True, bin_conf_predicted, _).
            case C_True of
              None \<Rightarrow> Inl TypeError
            | Some C_True \<Rightarrow> Inr (prediction, C_True, bin_conf_predicted)))"

text \<open>
  Granular prediction, top confidence and all confidences: \<open>gran_label\<close>, \<open>gran_conf_top\<close>
  and \<open>gran_conf_all\<close>. The initial value of \<open>gran_conf_all\<close> is assigned again on both
  branches.
\<close>

definition granular_scores :: "'v classifier \<Rightarrow> 'v \<Rightarrow> py_error + (label \<times> real \<times> field)" where
  "granular_scores gm gran_vec =
     (let gran_conf_all = no_probability_warning
      in case predict_proba gm of
        Some proba \<Rightarrow>
          (let gran_label = predict gm gran_vec;
               gran_probs = proba gran_vec
           in ebind (py_index (classes gm) gran_label) (\<lambda>predicted_index.
              ebind (py_nth gran_probs predicted_index) (\<lambda>p.
                let gran_conf_top = p * 100;
                    gran_conf_all = FConf (class_confidences (classes gm) gran_probs)
                in Inr (LStr gran_label, gran_conf_top, gran_conf_all))))
      | None \<Rightarrow>
          ebind (get_svc_confidence_fallback gm gran_vec) (\<lambda>(gran_label, _, gran_conf_top, conf).
            let gran_conf_all = (case conf of None \<Rightarrow> FNone | Some d \<Rightarrow> FConf d)
            in Inr (gran_label, gran_conf_top, gran_conf_all)))"

text \<open>Explainability: the two feature lists.\<close>

definition last_n :: "nat \<Rightarrow> 'a list \<Rightarrow> 'a list" where
  "last_n n xs = drop (length xs - n) xs"

text \<open>
  \<^verbatim>\<open>[(feature_names[i], round(coefs[i],4)) for i in idx if keep(feature_names[i])]\<close>
\<close>

fun feature_entries ::
  "pystr list \<Rightarrow> real list \<Rightarrow> (pystr \<Rightarrow> bool) \<Rightarrow> nat list \<Rightarrow> py_error + (pystr \<times> real) list" where
  "feature_entries feature_names coefs keep [] = Inr []"
| "feature_entries feature_names coefs keep (i # idx) =
     ebind (py_nth feature_names i) (\<lambda>name.
       if keep name
       then ebind (py_nth coefs i) (\<lambda>c.
              ebind (feature_entries feature_names coefs keep idx) (\<lambda>rest.
                Inr ((name, py_round c 4) # rest)))
       else feature_entries feature_names coefs keep idx)"

definition label_index :: "pystr list \<Rightarrow> label \<Rightarrow> py_error + nat" where
  "label_index class_labels l = (case l of LStr s \<Rightarrow> py_index class_labels s | LInt _ \<Rightarrow> Inl ValueError)"

definition top_features ::
  "pylib \<Rightarrow> 'v classifier \<Rightarrow> 'v vectorizer \<Rightarrow> label \<Rightarrow> pystr \<Rightarrow> py_error + (field \<times> field)" where
  "top_features L gm gv gran_label text_clean =
     (let top_input_features = feature_support_not_available;
          top_global_features = feature_support_not_available
      in case coef gm of
        None \<Rightarrow> Inr (top_input_features, top_global_features)
      | Some coef_rows \<Rightarrow>
          ebind (label_index (classes gm) gran_label) (\<lambda>class_idx.
          ebind (py_nth coef_rows class_idx) (\<lambda>coefs.
            let feature_names = get_feature_names_out gv;
                top_idx = rev (last_n 200 (np_argsort L coefs));
                input_words = set (py_split L text_clean)
            in ebind (feature_entries feature_names coefs (\<lambda>t. t \<in> input_words) top_idx) (\<lambda>inp.
               ebind (feature_entries feature_names coefs (\<lambda>t. True) (take 10 top_idx)) (\<lambda>glob.
                 Inr (FFeats (take 10 inp), FFeats glob))))))"

definition label_strip :: "label \<Rightarrow> py_error + pystr" where
  "label_strip l = (case l of LStr s \<Rightarrow> Inr (strip_quotes s) | LInt _ \<Rightarrow> Inl AttributeError)"

definition layered_predict :: "pylib \<Rightarrow> 'v models \<Rightarrow> pyval \<Rightarrow> py_error + payload" where
  "layered_predict L M text =
     ebind (clean_text_harmonized L text) (\<lambda>text_clean.
      if text_clean = [] then Inr empty_input_error
      else
        let bin_vec = transform (binary_vectorizer M) text_clean
        in ebind (binary_scores (binary_model M) bin_vec) (\<lambda>(_, C_True, bin_conf_predicted).
          let C_True_rounded = py_round C_True 2;
              bin_conf_predicted_rounded = py_round bin_conf_predicted 2
          in if 60 \<le> C_True
             then Inr (Result \<lparr>
               binary_prediction = py ''True'',
               binary_confidence = bin_conf_predicted_rounded,
               C_True_confidence = C_True_rounded,
               granular_prediction = NA,
               granular_confidence_top = FStr NA,
               granular_confidence_all = FStr NA,
               top_features_input = FStr NA,
               top_features_overall = FStr NA\<rparr>)
             else
               let bin_label_str = (if 50 \<le> C_True then py ''Unknown / Borderline'' else py ''Fake'');
                   gran_vec = transform (granular_vectorizer M) text_clean
               in ebind (granular_scores (granular_model M) gran_vec) (\<lambda>(gran_label, gran_conf_top, gran_conf_all).
                  ebind (top_features L (granular_model M) (granular_vectorizer M) gran_label text_clean)
                    (\<lambda>(top_input_features, top_global_features).
                  ebind (label_strip gran_label) (\<lambda>gran_label_stripped.
                    Inr (Result \<lparr>
                      binary_prediction = bin_label_str,
                      binary_confidence = bin_conf_predicted_rounded,
                      C_True_confidence = C_True_rounded,
                      granular_prediction = gran_label_stripped,
                      granular_confidence_top = FNum (py_round gran_conf_top 2),
                      granular_confidence_all = gran_conf_all,
                      top_features_input = top_input_features,
                      top_features_overall = top_global_features\<rparr>))))))"

section \<open>Concrete library tables and models\<close>

definition stable_argsort :: "real list \<Rightarrow> nat list" where
  "stable_argsort xs = sort_key (\<lambda>i. xs ! i) [0..<length xs]"

definition ascii_lib :: pylib where
  "ascii_lib = \<lparr>u_lower = (\<lambda>c. [c]), u_isspace = (\<lambda>c. False), u_isalnum = (\<lambda>c. False),
     u_isdecimal = (\<lambda>c. False), np_argsort = stable_argsort\<rparr>"

definition demo_vectorizer :: "pystr vectorizer" where
  "demo_vectorizer = \<lparr>transform = (\<lambda>s. s),
     get_feature_names_out = [py ''alpha'', py ''beta'', py ''gamma'']\<rparr>"

text \<open>A calibrated binary model that gives the positive class the probability \<open>p\<close>.\<close>

definition proba_model :: "real \<Rightarrow> pystr classifier" where
  "proba_model p = \<lparr>predict_proba = Some (\<lambda>v. [1 - p, p]), decision_function = None,
     predict = (\<lambda>v. py ''1''), classes = [py ''0'', py ''1''], coef = None\<rparr>"

text \<open>A raw binary model with the margin \<open>s\<close>.\<close>

definition margin_model :: "real \<Rightarrow> pystr classifier" where
  "margin_model s = \<lparr>predict_proba = None, decision_function = Some (\<lambda>v. Scalar s),
     predict = (\<lambda>v. py ''1''), classes = [py ''0'', py ''1''], coef = None\<rparr>"

definition demo_granular :: "pystr classifier" where
  "demo_granular = \<lparr>predict_proba = Some (\<lambda>v. [1 / 4, 3 / 4]), decision_function = None,
     predict = (\<lambda>v. py ''satire''), classes = [py ''bias'', py ''satire''],
     coef = Some [[1 / 2, - 1, 2], [3 / 2, 1 / 4, - 1 / 2]]\<rparr>"

text \<open>A calibrated granular model one of whose class labels reads \<open>N/A\<close>.\<close>

definition na_granular :: "pystr classifier" where
  "na_granular = \<lparr>predict_proba = Some (\<lambda>v. [1 / 4, 3 / 4]), decision_function = None,
     predict = (\<lambda>v. py ''N/A''), classes = [py ''bias'', py ''N/A''], coef = None\<rparr>"

text \<open>A granular model with neither \<open>predict_proba\<close> nor \<open>decision_function\<close>.\<close>

definition bare_granular :: "pystr classifier" where
  "bare_granular = \<lparr>predict_proba = None, decision_function = None,
     predict = (\<lambda>v. py ''satire''), classes = [py ''bias'', py ''satire''], coef = None\<rparr>"

definition demo_models :: "pystr classifier \<Rightarrow> pystr classifier \<Rightarrow> pystr models" where
  "demo_models bm gm = \<lparr>binary_model = bm, binary_vectorizer = demo_vectorizer,
     granular_model = gm, granular_vectorizer = demo_vectorizer\<rparr>"

section \<open>Shapes of the response\<close>

definition true_terminal :: "real \<Rightarrow> real \<Rightarrow> response" where
  "true_terminal bc ct = \<lparr>binary_prediction = py ''True'', binary_confidence = bc,
     C_True_confidence = ct, granular_prediction = NA, granular_confidence_top = FStr NA,
     granular_confidence_all = FStr NA, top_features_input = FStr NA,
     top_features_overall = FStr NA\<rparr>"


text \<open>The binary stage of \<open>layered_predict\<close> on the cleaned text.\<close>

definition binary_stage :: "pylib \<Rightarrow> 'v models \<Rightarrow> pyval \<Rightarrow> py_error + (label \<times> real \<times> real)" where
  "binary_stage L M text =
     ebind (clean_text_harmonized L text) (\<lambda>text_clean.
       binary_scores (binary_model M) (transform (binary_vectorizer M) text_clean))"

text \<open>The granular stage of \<open>layered_predict\<close> on the cleaned text.\<close>

definition granular_stage :: "pylib \<Rightarrow> 'v models \<Rightarrow> pyval \<Rightarrow> py_error + (label \<times> real \<times> field)" where
  "granular_stage L M text =
     ebind (clean_text_harmonized L text) (\<lambda>text_clean.
       granular_scores (granular_model M) (transform (granular_vectorizer M) text_clean))"

section \<open>The shape of a cleaned text\<close>


fun no_double_space :: "pystr \<Rightarrow> bool" where
  "no_double_space (a # b # cs) = (\<not> (a = 32 \<and> b = 32) \<and> no_double_space (b # cs))"
| "no_double_space _ = True"



section \<open>The distribution invariant\<close>

definition values_in_range :: "(pystr \<times> real) list \<Rightarrow> bool" where
  "values_in_range d = list_all (\<lambda>(k, v). 0 \<le> v \<and> v \<le> 100) d"

definition sum_close_to_100 :: "(pystr \<times> real) list \<Rightarrow> bool" where
  "sum_close_to_100 d = (\<bar>sum_list (map snd d) - 100\<bar> \<le> 1 / 10)"

text \<open>
  A raw granular model with two class labels that are equal once the quotes are stripped
  (\<open>a\<close> and \<open>"a"\<close>) and equal margins.
\<close>

definition collapsing_granular :: "pystr classifier" where
  "collapsing_granular = \<lparr>predict_proba = None, decision_function = Some (\<lambda>v. Vector [0, 0]),
     predict = (\<lambda>v. [97]), classes = [[97], [34, 97, 34]], coef = None\<rparr>"

text \<open>A raw granular model with two distinct class labels and equal margins.\<close>

definition margin_granular :: "pystr classifier" where
  "margin_granular = \<lparr>predict_proba = None, decision_function = Some (\<lambda>v. Vector [0, 0]),
     predict = (\<lambda>v. py ''bias''), classes = [py ''bias'', py ''satire''], coef = None\<rparr>"


section \<open>Feature attribution\<close>

text \<open>
  What \<open>numpy.argsort\<close> guarantees of its result \<open>idx\<close> on \<open>xs\<close>: a permutation of the
  indices of \<open>xs\<close> along which the values ascend (the order among equal values is open).
\<close>

definition is_argsort :: "real list \<Rightarrow> nat list \<Rightarrow> bool" where
  "is_argsort xs idx = (sort idx = [0..<length xs] \<and> sorted (map (\<lambda>i. xs ! i) idx))"

text \<open>The entry of the feature index \<open>i\<close>: its term and its weight, rounded to 4 decimals.\<close>

definition feature_entry :: "pystr list \<Rightarrow> real list \<Rightarrow> nat \<Rightarrow> pystr \<times> real" where
  "feature_entry feature_names coefs i = (feature_names ! i, py_round (coefs ! i) 4)"


section \<open>The binary stage and the threshold gate\<close>


lemma binary_scores_shape:
  assumes "binary_scores bm v = Inr (pred, ct, conf)"
  shows "pred = LInt (if 50 \<le> ct then 1 else 0) \<and> conf = (if 50 \<le> ct then ct else 100 - ct)"
  using assms
  by (auto simp: binary_scores_def get_svc_confidence_fallback_def ebind_def Let_def py_nth_def
      split: option.splits sum.splits decision.splits if_splits prod.splits)

lemma layered_predict_true:
  assumes "clean_text_harmonized L text = Inr text_clean" and "text_clean \<noteq> []"
    and "binary_stage L M text = Inr (pred, ct, conf)"
    and "60 \<le> ct"
  shows "layered_predict L M text = Inr (Result (true_terminal (py_round conf 2) (py_round ct 2)))"
  using assms by (simp add: layered_predict_def binary_stage_def ebind_def Let_def true_terminal_def)

lemma layered_predict_escalated:
  assumes "clean_text_harmonized L text = Inr text_clean" and "text_clean \<noteq> []"
    and "binary_stage L M text = Inr (pred, ct, conf)"
    and "ct < 60"
  shows "layered_predict L M text =
    ebind (granular_stage L M text)
      (\<lambda>(gran_label, gran_conf_top, gran_conf_all).
       ebind (top_features L (granular_model M) (granular_vectorizer M) gran_label text_clean)
         (\<lambda>(top_input_features, top_global_features).
       ebind (label_strip gran_label) (\<lambda>gran_label_stripped.
         Inr (Result \<lparr>
           binary_prediction = (if 50 \<le> ct then py ''Unknown / Borderline'' else py ''Fake''),
           binary_confidence = py_round conf 2,
           C_True_confidence = py_round ct 2,
           granular_prediction = gran_label_stripped,
           granular_confidence_top = FNum (py_round gran_conf_top 2),
           granular_confidence_all = gran_conf_all,
           top_features_input = top_input_features,
           top_features_overall = top_global_features\<rparr>))))"
  using assms by (simp add: layered_predict_def binary_stage_def granular_stage_def ebind_def Let_def)



subsection \<open>Evaluation of the concrete inputs\<close>

lemma clean_alpha_news:
  "clean_text_harmonized ascii_lib (PyStr (py ''Alpha news!'')) = Inr (py ''alpha news'')"
  by code_simp

lemma py_alpha_news_nonempty: "py ''alpha news'' \<noteq> []"
  by (simp add: py_def)

lemma binary_stage_proba:
  "binary_stage ascii_lib (demo_models (proba_model p) gm) (PyStr (py ''Alpha news!'')) =
     Inr (LInt (if 50 \<le> p * 100 then 1 else 0), p * 100, if 50 \<le> p * 100 then p * 100 else 100 - p * 100)"
  by (simp add: binary_stage_def clean_alpha_news binary_scores_def demo_models_def
      proba_model_def ebind_def py_nth_def Let_def)

lemma binary_stage_margin:
  "binary_stage ascii_lib (demo_models (margin_model 0) gm) (PyStr (py ''Alpha news!'')) =
     Inr (LInt 1, 50, 50)"
  by (simp add: binary_stage_def clean_alpha_news binary_scores_def demo_models_def
      margin_model_def ebind_def get_svc_confidence_fallback_def Let_def)



text \<open>
  C2. On both binary paths (\<open>predict_proba\<close> and the \<open>decision_function\<close> fallback) the
  predicted label is the positive class if and only if \<open>C_True \<ge> 50\<close>, and the confidence
  of the predicted class is \<open>C_True\<close> when the label is positive and \<open>100 - C_True\<close> otherwise.
\<close>

theorem binary_complement_invariant:
  assumes "binary_scores bm v = Inr (pred, C_True, conf)"
  shows "(pred = LInt 1 \<or> pred = LInt 0) \<and> (pred = LInt 1 \<longleftrightarrow> 50 \<le> C_True) \<and>
         conf = (if pred = LInt 1 then C_True else 100 - C_True)"
  using binary_scores_shape[OF assms] by auto

theorem binary_complement_invariant_witness:
  "(binary_scores (proba_model (4 / 10)) (py ''alpha news'') = Inr (LInt 0, 40, 60) \<and>
    (LInt 0 = LInt 1 \<or> LInt 0 = LInt 0) \<and> (LInt 0 = LInt 1 \<longleftrightarrow> (50::real) \<le> 40) \<and>
    (60::real) = (if LInt 0 = LInt 1 then 40 else 100 - 40)) \<and>
   (binary_scores (margin_model 0) (py ''alpha news'') = Inr (LInt 1, 50, 50) \<and>
    (LInt 1 = LInt 1 \<or> LInt 1 = LInt 0) \<and> (LInt 1 = LInt 1 \<longleftrightarrow> (50::real) \<le> 50) \<and>
    (50::real) = (if LInt 1 = LInt 1 then 50 else 100 - 50))"
proof -
  have h1: "binary_scores (proba_model (4 / 10)) (py ''alpha news'') = Inr (LInt 0, 40, 60)"
    by (simp add: binary_scores_def proba_model_def ebind_def py_nth_def Let_def)
  have h2: "binary_scores (margin_model 0) (py ''alpha news'') = Inr (LInt 1, 50, 50)"
    by (simp add: binary_scores_def margin_model_def ebind_def get_svc_confidence_fallback_def Let_def)
  from h1 binary_complement_invariant[OF h1] have a: "binary_scores (proba_model (4 / 10)) (py ''alpha news'') = Inr (LInt 0, 40, 60) \<and>
    (LInt 0 = LInt 1 \<or> LInt 0 = LInt 0) \<and> (LInt 0 = LInt 1 \<longleftrightarrow> (50::real) \<le> 40) \<and>
    (60::real) = (if LInt 0 = LInt 1 then 40 else 100 - 40)"
    by (rule conjI)
  from h2 binary_complement_invariant[OF h2] have b: "binary_scores (margin_model 0) (py ''alpha news'') = Inr (LInt 1, 50, 50) \<and>
    (LInt 1 = LInt 1 \<or> LInt 1 = LInt 0) \<and> (LInt 1 = LInt 1 \<longleftrightarrow> (50::real) \<le> 50) \<and>
    (50::real) = (if LInt 1 = LInt 1 then 50 else 100 - 50)"
    by (rule conjI)
  from a b show ?thesis by (rule conjI)
qed

text \<open>
  C3. When the model has no \<open>predict_proba\<close> and its \<open>decision_function\<close> yields a scalar
  margin \<open>s\<close>, the estimator computes \<open>C_True = 100 / (1 + exp (- s))\<close>, predicts the positive
  class iff \<open>C_True \<ge> 50\<close>, returns as confidence of the predicted class \<open>C_True\<close> if positive
  and \<open>100 - C_True\<close> otherwise, and returns \<open>None\<close> in the place of the per-class mapping.
\<close>

theorem fallback_scalar_margin:
  assumes "decision_function model = Some df" and "df vector = Scalar s"
  shows "get_svc_confidence_fallback model vector =
           Inr (LInt (if 50 \<le> 100 / (1 + exp (- s)) then 1 else 0),
                Some (100 / (1 + exp (- s))),
                (if 50 \<le> 100 / (1 + exp (- s)) then 100 / (1 + exp (- s))
                 else 100 - 100 / (1 + exp (- s))),
                None) \<and>
         (predict_proba model = None \<longrightarrow>
            binary_scores model vector =
              Inr (LInt (if 50 \<le> 100 / (1 + exp (- s)) then 1 else 0),
                   100 / (1 + exp (- s)),
                   (if 50 \<le> 100 / (1 + exp (- s)) then 100 / (1 + exp (- s))
                    else 100 - 100 / (1 + exp (- s)))))"
  using assms
  by (simp add: get_svc_confidence_fallback_def binary_scores_def ebind_def Let_def)

theorem fallback_scalar_margin_witness:
  "decision_function (margin_model 0) = Some (\<lambda>v. Scalar 0) \<and>
   predict_proba (margin_model 0) = None \<and>
   get_svc_confidence_fallback (margin_model 0) (py ''alpha news'') = Inr (LInt 1, Some 50, 50, None) \<and>
   binary_scores (margin_model 0) (py ''alpha news'') = Inr (LInt 1, 50, 50)"
proof -
  have h1: "decision_function (margin_model 0) = Some (\<lambda>v. Scalar 0)"
    by (simp add: margin_model_def)
  have h2: "(\<lambda>v::pystr. Scalar 0) (py ''alpha news'') = Scalar 0"
    by simp
  have h3: "predict_proba (margin_model 0) = None"
    by (simp add: margin_model_def)
  show ?thesis
    using h1 h3 fallback_scalar_margin[OF h1 h2] by simp
qed


section \<open>The escalated path\<close>

lemma py_index_Inr:
  assumes "py_index xs x = Inr i"
  shows "x \<in> set xs"
  using assms
  by (induction xs arbitrary: i) (auto simp: ebind_def split: if_splits sum.splits)

lemma granular_scores_label_in_classes:
  assumes "granular_scores gm v = Inr (LStr lbl, gtop, conf_all)"
  shows "lbl \<in> set (classes gm)"
proof (cases "predict_proba gm")
  case (Some proba)
  with assms obtain i where "py_index (classes gm) (predict gm v) = Inr i" and "lbl = predict gm v"
    by (auto simp: granular_scores_def ebind_def Let_def split: sum.splits)
  then show ?thesis
    using py_index_Inr[of "classes gm" "predict gm v" i] by simp
next
  case None
  with assms obtain i where "py_nth (classes gm) i = Inr lbl"
    by (auto simp: granular_scores_def get_svc_confidence_fallback_def ebind_def Let_def
        split: option.splits decision.splits sum.splits)
  then show ?thesis
    by (auto simp: py_nth_def split: if_splits)
qed

lemma granular_scores_not_NA:
  assumes "granular_scores gm v = Inr (gl, gtop, conf_all)"
  shows "conf_all \<noteq> FStr NA \<and> conf_all \<noteq> no_probability_warning"
  using assms
  by (auto simp: granular_scores_def get_svc_confidence_fallback_def ebind_def Let_def
      no_probability_warning_def
      split: option.splits sum.splits decision.splits prod.splits)

lemma top_features_not_NA:
  assumes "top_features L gm gv gl t = Inr (fi, fo)"
  shows "fi \<noteq> FStr NA \<and> fo \<noteq> FStr NA"
  using assms
  by (auto simp: top_features_def ebind_def Let_def feature_support_not_available_def NA_def py_def
      split: option.splits sum.splits)

lemma label_strip_Inr:
  assumes "label_strip gl = Inr s"
  shows "\<exists>lbl. gl = LStr lbl \<and> s = strip_quotes lbl"
  using assms by (auto simp: label_strip_def split: label.splits)

lemma escalation_fields_from_granular:
  assumes "clean_text_harmonized L text = Inr text_clean" and "text_clean \<noteq> []"
    and "binary_stage L M text = Inr (pred, C_True, conf)"
    and "C_True < 60"
    and "layered_predict L M text = Inr res"
  shows "\<exists>r lbl gtop conf_all.
           res = Result r \<and>
           binary_prediction r = (if 50 \<le> C_True then py ''Unknown / Borderline'' else py ''Fake'') \<and>
           granular_stage L M text = Inr (LStr lbl, gtop, conf_all) \<and>
           lbl \<in> set (classes (granular_model M)) \<and>
           granular_prediction r = strip_quotes lbl \<and>
           granular_confidence_top r = FNum (py_round gtop 2) \<and>
           granular_confidence_top r \<noteq> FStr NA \<and>
           granular_confidence_all r = conf_all \<and>
           granular_confidence_all r \<noteq> FStr NA \<and>
           granular_confidence_all r \<noteq> no_probability_warning \<and>
           top_features_input r \<noteq> FStr NA \<and>
           top_features_overall r \<noteq> FStr NA \<and>
           top_features L (granular_model M) (granular_vectorizer M) (LStr lbl)
             text_clean = Inr (top_features_input r, top_features_overall r)"
proof -
  note eq = layered_predict_escalated[OF assms(1-4)]
  obtain gl gtop conf_all where g: "granular_stage L M text = Inr (gl, gtop, conf_all)"
    using assms(5) unfolding eq
    by (cases "granular_stage L M text") (auto simp: ebind_def)
  obtain fi fo where
    f: "top_features L (granular_model M) (granular_vectorizer M) gl text_clean = Inr (fi, fo)"
    using assms(5)
    by (cases "top_features L (granular_model M) (granular_vectorizer M) gl text_clean")
       (auto simp: eq g ebind_def)
  obtain s where s: "label_strip gl = Inr s"
    using assms(5) by (cases "label_strip gl") (auto simp: eq g f ebind_def)
  from label_strip_Inr[OF s] obtain lbl where l: "gl = LStr lbl" "s = strip_quotes lbl"
    by blast
  have r: "res = Result \<lparr>
           binary_prediction = (if 50 \<le> C_True then py ''Unknown / Borderline'' else py ''Fake''),
           binary_confidence = py_round conf 2,
           C_True_confidence = py_round C_True 2,
           granular_prediction = s,
           granular_confidence_top = FNum (py_round gtop 2),
           granular_confidence_all = conf_all,
           top_features_input = fi,
           top_features_overall = fo\<rparr>"
    using assms(5) by (simp add: eq g f s ebind_def)
  have n1: "conf_all \<noteq> FStr NA \<and> conf_all \<noteq> no_probability_warning"
    using granular_scores_not_NA[OF g[unfolded granular_stage_def assms(1) ebind_def, simplified]] by simp
  have n2: "fi \<noteq> FStr NA \<and> fo \<noteq> FStr NA"
    using top_features_not_NA[OF f] .
  have m: "lbl \<in> set (classes (granular_model M))"
    using granular_scores_label_in_classes[OF g[unfolded granular_stage_def l(1) assms(1) ebind_def, simplified]] .
  show ?thesis
    using r g l n1 n2 f m by simp
qed


text \<open>
  C5. For a text with a non-empty normalisation and an unrounded \<open>C_True < 60\<close>, a response
  has the binary prediction \<open>"Unknown / Borderline"\<close> when \<open>C_True \<ge> 50\<close> and \<open>"Fake"\<close> when
  \<open>C_True < 50\<close>; in both cases its granular fields come from the granular classifier (the
  stripped form of one of its class labels, the rounded top confidence, the confidences
  of all classes), and neither they nor the feature fields are the \<open>"N/A"\<close> marker (the
  label itself provided that no class label of the model reads \<open>N/A\<close>).
\<close>

theorem escalation_labels_and_fields:
  assumes "clean_text_harmonized L text = Inr text_clean" and "text_clean \<noteq> []"
    and "binary_stage L M text = Inr (pred, C_True, conf)"
    and "C_True < 60"
    and "layered_predict L M text = Inr res"
  shows "\<exists>r lbl gtop conf_all.
           res = Result r \<and>
           binary_prediction r = (if 50 \<le> C_True then py ''Unknown / Borderline'' else py ''Fake'') \<and>
           granular_stage L M text = Inr (LStr lbl, gtop, conf_all) \<and>
           lbl \<in> set (classes (granular_model M)) \<and>
           granular_prediction r = strip_quotes lbl \<and>
           granular_confidence_top r = FNum (py_round gtop 2) \<and>
           granular_confidence_top r \<noteq> FStr NA \<and>
           granular_confidence_all r = conf_all \<and>
           granular_confidence_all r \<noteq> FStr NA \<and>
           top_features_input r \<noteq> FStr NA \<and>
           top_features_overall r \<noteq> FStr NA \<and>
           (NA \<notin> strip_quotes ` set (classes (granular_model M)) \<longrightarrow> granular_prediction r \<noteq> NA)"
proof -
  from escalation_fields_from_granular[OF assms] obtain r lbl gtop conf_all where
    f: "res = Result r"
      "binary_prediction r = (if 50 \<le> C_True then py ''Unknown / Borderline'' else py ''Fake'')"
      "granular_stage L M text = Inr (LStr lbl, gtop, conf_all)"
      "lbl \<in> set (classes (granular_model M))"
      "granular_prediction r = strip_quotes lbl"
      "granular_confidence_top r = FNum (py_round gtop 2)"
      "granular_confidence_top r \<noteq> FStr NA"
      "granular_confidence_all r = conf_all"
      "granular_confidence_all r \<noteq> FStr NA"
      "top_features_input r \<noteq> FStr NA"
      "top_features_overall r \<noteq> FStr NA"
    by blast
  from f(4,5) have "NA \<notin> strip_quotes ` set (classes (granular_model M)) \<longrightarrow> granular_prediction r \<noteq> NA"
    by (metis image_eqI)
  with f show ?thesis by blast
qed


lemma granular_stage_demo:
  "granular_stage ascii_lib (demo_models bm demo_granular) (PyStr (py ''Alpha news!'')) =
     Inr (LStr (py ''satire''), 75, FConf [(py ''bias'', 25), (py ''satire'', 75)])"
  unfolding granular_stage_def clean_alpha_news
  by (simp add: granular_scores_def demo_models_def demo_granular_def
      demo_vectorizer_def ebind_def py_nth_def Let_def class_confidences_def dict_of_def
      strip_quotes_def py_strip_char_def py_def py_round_def round_half_even_def)

lemma argsort_demo: "np_argsort ascii_lib [3 / 2, 1 / 4, - (1 / 2)] = [2, 1, 0]"
  by (simp add: ascii_lib_def stable_argsort_def upt_conv_Cons)

lemma split_demo: "py_split ascii_lib (py ''alpha news'') = [py ''alpha'', py ''news'']"
  by (simp add: py_split_def is_space_def py_def)

lemma top_features_demo:
  "top_features ascii_lib demo_granular demo_vectorizer (LStr (py ''satire'')) (py ''alpha news'') =
     Inr (FFeats [(py ''alpha'', 3 / 2)],
          FFeats [(py ''alpha'', 3 / 2), (py ''beta'', 1 / 4), (py ''gamma'', - 1 / 2)])"
proof -
  have w: "set (py_split ascii_lib (py ''alpha news'')) = {py ''alpha'', py ''news''}"
    by (simp add: split_demo)
  have m: "py ''beta'' \<noteq> py ''alpha''" "py ''beta'' \<noteq> py ''news''"
    "py ''gamma'' \<noteq> py ''alpha''" "py ''gamma'' \<noteq> py ''news''"
    by (simp_all add: py_def)
  have r: "py_round (3 / 2) 4 = 3 / 2" "py_round (1 / 4) 4 = 1 / 4" "py_round (- (1 / 2)) 4 = - (1 / 2)"
    by (simp_all add: py_round_def round_half_even_def)
  have i: "label_index [py ''bias'', py ''satire''] (LStr (py ''satire'')) = Inr 1"
    by (simp add: label_index_def ebind_def py_def)
  show ?thesis
    by (simp add: top_features_def demo_granular_def demo_vectorizer_def i argsort_demo w m r
        ebind_def py_nth_def Let_def last_n_def)
qed


lemma demo_models_sel:
  "granular_model (demo_models bm gm) = gm"
  "granular_vectorizer (demo_models bm gm) = demo_vectorizer"
  "binary_model (demo_models bm gm) = bm"
  "binary_vectorizer (demo_models bm gm) = demo_vectorizer"
  by (simp_all add: demo_models_def)

lemma label_strip_satire: "label_strip (LStr (py ''satire'')) = Inr (py ''satire'')"
  by (simp add: label_strip_def strip_quotes_def py_strip_char_def py_def)

lemma layered_predict_demo_borderline:
  "layered_predict ascii_lib (demo_models (proba_model (55 / 100)) demo_granular) (PyStr (py ''Alpha news!'')) =
     Inr (Result \<lparr>
       binary_prediction = py ''Unknown / Borderline'',
       binary_confidence = 55,
       C_True_confidence = 55,
       granular_prediction = py ''satire'',
       granular_confidence_top = FNum 75,
       granular_confidence_all = FConf [(py ''bias'', 25), (py ''satire'', 75)],
       top_features_input = FFeats [(py ''alpha'', 3 / 2)],
       top_features_overall = FFeats [(py ''alpha'', 3 / 2), (py ''beta'', 1 / 4), (py ''gamma'', - 1 / 2)]\<rparr>)"
proof -
  note h1 = clean_alpha_news py_alpha_news_nonempty
  have h2: "binary_stage ascii_lib (demo_models (proba_model (55 / 100)) demo_granular) (PyStr (py ''Alpha news!''))
      = Inr (LInt 1, 55, 55)"
    by (simp add: binary_stage_proba)
  have h3: "(55::real) < 60" by simp
  have r: "py_round 55 2 = 55" "py_round 75 2 = 75"
    by (simp_all add: py_round_def round_half_even_def)
  show ?thesis
    unfolding layered_predict_escalated[OF h1 h2 h3]
    by (simp add: granular_stage_demo demo_models_sel clean_alpha_news top_features_demo label_strip_satire
        ebind_def r)
qed

theorem escalation_labels_and_fields_witness:
  "\<exists>r lbl gtop conf_all.
     Result \<lparr>
       binary_prediction = py ''Unknown / Borderline'',
       binary_confidence = 55,
       C_True_confidence = 55,
       granular_prediction = py ''satire'',
       granular_confidence_top = FNum 75,
       granular_confidence_all = FConf [(py ''bias'', 25), (py ''satire'', 75)],
       top_features_input = FFeats [(py ''alpha'', 3 / 2)],
       top_features_overall = FFeats [(py ''alpha'', 3 / 2), (py ''beta'', 1 / 4), (py ''gamma'', - 1 / 2)]\<rparr>
       = Result r \<and>
     binary_prediction r = (if (50::real) \<le> 55 then py ''Unknown / Borderline'' else py ''Fake'') \<and>
     granular_stage ascii_lib (demo_models (proba_model (55 / 100)) demo_granular) (PyStr (py ''Alpha news!''))
       = Inr (LStr lbl, gtop, conf_all) \<and>
     lbl \<in> set (classes (granular_model (demo_models (proba_model (55 / 100)) demo_granular))) \<and>
     granular_prediction r = strip_quotes lbl \<and>
     granular_confidence_top r = FNum (py_round gtop 2) \<and>
     granular_confidence_top r \<noteq> FStr NA \<and>
     granular_confidence_all r = conf_all \<and>
     granular_confidence_all r \<noteq> FStr NA \<and>
     top_features_input r \<noteq> FStr NA \<and>
     top_features_overall r \<noteq> FStr NA \<and>
     (NA \<notin> strip_quotes ` set (classes (granular_model (demo_models (proba_model (55 / 100)) demo_granular)))
        \<longrightarrow> granular_prediction r \<noteq> NA)"
proof -
  note h1 = clean_alpha_news py_alpha_news_nonempty
  have h2: "binary_stage ascii_lib (demo_models (proba_model (55 / 100)) demo_granular) (PyStr (py ''Alpha news!''))
      = Inr (LInt 1, 55, 55)"
    by (simp add: binary_stage_proba)
  have h3: "(55::real) < 60" by simp
  show ?thesis
    by (rule escalation_labels_and_fields[OF h1 h2 h3 layered_predict_demo_borderline])
qed

text \<open>
  C5, a granular model with a class label that reads \<open>N/A\<close>: on the escalated path the
  response carries that label, so that \<open>granular_prediction\<close> is \<open>"N/A"\<close>.
\<close>

theorem na_label_counterexample:
  "layered_predict ascii_lib (demo_models (proba_model (4 / 10)) na_granular) (PyStr (py ''Alpha news!'')) =
     Inr (Result \<lparr>
       binary_prediction = py ''Fake'',
       binary_confidence = 60,
       C_True_confidence = 40,
       granular_prediction = NA,
       granular_confidence_top = FNum 75,
       granular_confidence_all = FConf [(py ''bias'', 25), (NA, 75)],
       top_features_input = feature_support_not_available,
       top_features_overall = feature_support_not_available\<rparr>)"
proof -
  note h1 = clean_alpha_news py_alpha_news_nonempty
  have h2: "binary_stage ascii_lib (demo_models (proba_model (4 / 10)) na_granular) (PyStr (py ''Alpha news!''))
      = Inr (LInt 0, 40, 60)"
    by (simp add: binary_stage_proba)
  have h3: "(40::real) < 60" by simp
  have g: "granular_stage ascii_lib (demo_models bm na_granular) (PyStr (py ''Alpha news!'')) =
      Inr (LStr (py ''N/A''), 75, FConf [(py ''bias'', 25), (py ''N/A'', 75)])" for bm
    unfolding granular_stage_def clean_alpha_news
    by (simp add: granular_scores_def demo_models_def na_granular_def
        demo_vectorizer_def ebind_def py_nth_def Let_def class_confidences_def dict_of_def
        strip_quotes_def py_strip_char_def py_def py_round_def round_half_even_def)
  have t: "top_features ascii_lib na_granular demo_vectorizer (LStr (py ''N/A'')) (py ''alpha news'') =
      Inr (feature_support_not_available, feature_support_not_available)"
    by (simp add: top_features_def na_granular_def)
  have l: "label_strip (LStr (py ''N/A'')) = Inr NA"
    by (simp add: label_strip_def strip_quotes_def py_strip_char_def NA_def py_def)
  have r: "py_round 60 2 = 60" "py_round 40 2 = 40" "py_round 75 2 = 75"
    by (simp_all add: py_round_def round_half_even_def)
  show ?thesis
    unfolding layered_predict_escalated[OF h1 h2 h3]
    by (simp add: g demo_models_sel t l ebind_def r NA_def)
qed

text \<open>
  C10. In a True-terminal response (unrounded \<open>C_True \<ge> 60\<close>) \<open>binary_confidence\<close> equals
  \<open>C_True_confidence\<close>, both being \<open>round(C_True, 2)\<close>: the predicted binary class is the
  positive one and the confidence of the predicted class is \<open>C_True\<close> itself.
\<close>

theorem true_terminal_confidences_agree:
  assumes "clean_text_harmonized L text = Inr text_clean" and "text_clean \<noteq> []"
    and "binary_stage L M text = Inr (pred, C_True, conf)"
    and "60 \<le> C_True"
  shows "\<exists>r. layered_predict L M text = Inr (Result r) \<and>
           binary_confidence r = C_True_confidence r \<and>
           C_True_confidence r = py_round C_True 2 \<and>
           pred = LInt 1 \<and> conf = C_True"
proof -
  from binary_scores_shape[OF assms(3)[unfolded binary_stage_def assms(1) ebind_def, simplified]] assms(4)
  have p: "pred = LInt 1" and c: "conf = C_True"
    by simp_all
  from layered_predict_true[OF assms] p c show ?thesis
    by (simp add: true_terminal_def)
qed

theorem true_terminal_confidences_agree_witness:
  "\<exists>r. layered_predict ascii_lib (demo_models (proba_model (85 / 100)) demo_granular) (PyStr (py ''Alpha news!''))
          = Inr (Result r) \<and>
        binary_confidence r = C_True_confidence r \<and>
        C_True_confidence r = py_round 85 2 \<and>
        LInt 1 = LInt 1 \<and> (85::real) = 85"
proof -
  note h1 = clean_alpha_news py_alpha_news_nonempty
  have h2: "binary_stage ascii_lib (demo_models (proba_model (85 / 100)) demo_granular) (PyStr (py ''Alpha news!''))
      = Inr (LInt 1, 85, 85)"
    by (simp add: binary_stage_proba)
  have h3: "(60::real) \<le> 85" by simp
  show ?thesis
    by (rule true_terminal_confidences_agree[OF h1 h2 h3])
qed

section \<open>The unavailability marker\<close>

lemma response_never_warning:
  assumes "layered_predict L M text = Inr (Result r)"
  shows "granular_confidence_all r \<noteq> no_probability_warning"
proof (cases "clean_text_harmonized L text")
  case (Inl e)
  with assms show ?thesis by (simp add: layered_predict_def ebind_def)
next
  case c: (Inr text_clean)
  show ?thesis
  proof (cases "text_clean = []")
    case True
    with c assms show ?thesis
      by (simp add: layered_predict_def ebind_def empty_input_error_def)
  next
    case n: False
    show ?thesis
    proof (cases "binary_stage L M text")
      case (Inl e)
      with c n assms show ?thesis
        by (simp add: layered_predict_def binary_stage_def ebind_def)
    next
      case (Inr t)
      obtain pred ct conf where t: "t = (pred, ct, conf)" by (cases t) auto
      show ?thesis
      proof (cases "60 \<le> ct")
        case True
        from layered_predict_true[OF c n Inr[unfolded t] True] assms show ?thesis
          by (auto simp: true_terminal_def no_probability_warning_def)
      next
        case False
        then have "ct < 60" by simp
        from escalation_fields_from_granular[OF c n Inr[unfolded t] this assms] show ?thesis
          by auto
      qed
    qed
  qed
qed

text \<open>
  C9. A granular model with neither \<open>predict_proba\<close> nor \<open>decision_function\<close>: the request
  does not complete with the marker \<open>{"warning": "No probability function available."}\<close>;
  the fallback raises \<open>AttributeError\<close>.
\<close>

theorem no_probability_mechanism_raises:
  "layered_predict ascii_lib (demo_models (proba_model (4 / 10)) bare_granular) (PyStr (py ''Alpha news!'')) =
     Inl AttributeError"
proof -
  note h1 = clean_alpha_news py_alpha_news_nonempty
  have h2: "binary_stage ascii_lib (demo_models (proba_model (4 / 10)) bare_granular) (PyStr (py ''Alpha news!''))
      = Inr (LInt 0, 40, 60)"
    by (simp add: binary_stage_proba)
  have h3: "(40::real) < 60" by simp
  show ?thesis
    unfolding layered_predict_escalated[OF h1 h2 h3]
    by (simp add: granular_stage_def clean_alpha_news granular_scores_def demo_models_def
        bare_granular_def get_svc_confidence_fallback_def ebind_def)
qed


section \<open>The text normaliser\<close>

lemma re_sub_set: "set (re_sub w r repl prev s) \<subseteq> set s \<union> set repl"
proof (induction w r repl prev s rule: re_sub.induct)
  case (1 w r repl prev)
  then show ?case by (auto split: option.splits)
next
  case (2 w r repl prev c cs)
  show ?case
  proof (cases "re_match w [r] prev (c # cs)")
    case None
    with 2(1) show ?thesis by auto
  next
    case (Some m)
    show ?thesis
    proof (cases m)
      case 0
      with Some 2(2) show ?thesis by auto
    next
      case (Suc n)
      with Some 2(3) have
        "set (re_sub w r repl (Some (last (c # take n cs))) (drop n cs)) \<subseteq> set (drop n cs) \<union> set repl"
        by blast
      moreover have "set (drop n cs) \<subseteq> set cs"
        by (rule set_drop_subset)
      ultimately show ?thesis
        using Some Suc by auto
    qed
  qed
qed




lemma re_sub_Cls:
  "re_sub w (Cls p) repl prev s = concat (map (\<lambda>c. if p c then repl else [c]) s)"
  by (induction s arbitrary: prev) auto

lemma re_match_Star_only: "re_match w [Star p] prev s = Some (length (takeWhile p s))"
  by (induction s arbitrary: prev) auto

lemma re_match_plus:
  "re_match w [rplus p] prev (c # cs) = (if p c then Some (Suc (length (takeWhile p cs))) else None)"
  by (simp add: rplus_def re_match_Star_only)

lemma re_match_plus_Nil: "re_match w [rplus p] prev [] = None"
  by (simp add: rplus_def)

lemma no_double_space_Cons:
  "no_double_space (a # t) = ((a = 32 \<longrightarrow> (case t of [] \<Rightarrow> True | b # _ \<Rightarrow> b \<noteq> 32)) \<and> no_double_space t)"
  by (cases t) auto

lemma drop_takeWhile_length: "drop (length (takeWhile p cs)) cs = dropWhile p cs"
  by (induction cs) auto


text \<open>Replacing the runs of a class that contains the space by a single space.\<close>

lemma re_sub_plus_space:
  assumes "p 32"
  shows "(\<forall>x\<in>set (re_sub w (rplus p) [32] prev s). x = 32 \<or> (x \<in> set s \<and> \<not> p x)) \<and>
         no_double_space (re_sub w (rplus p) [32] prev s) \<and>
         (case re_sub w (rplus p) [32] prev s of [] \<Rightarrow> True
          | b # _ \<Rightarrow> s \<noteq> [] \<and> (b = 32 \<longleftrightarrow> p (hd s)))"
proof (induction s arbitrary: prev rule: length_induct)
  case (1 s)
  show ?case
  proof (cases s)
    case Nil
    then show ?thesis by (simp add: re_match_plus_Nil)
  next
    case (Cons c cs)
    show ?thesis
    proof (cases "p c")
      case True
      define rest where "rest = dropWhile p cs"
      define t where "t = re_sub w (rplus p) [32] (Some (last (c # take (length (takeWhile p cs)) cs))) rest"
      have e: "re_sub w (rplus p) [32] prev s = 32 # t"
        using True Cons by (simp add: re_match_plus drop_takeWhile_length t_def rest_def)
      have len: "length rest < length s"
        using Cons by (simp add: rest_def length_dropWhile_le le_imp_less_Suc)
      note ih = 1[rule_format, OF len, of "Some (last (c # take (length (takeWhile p cs)) cs))", folded t_def]
      have sub: "set rest \<subseteq> set cs"
        unfolding rest_def using set_dropWhileD by fastforce
      have h: "rest \<noteq> [] \<Longrightarrow> \<not> p (hd rest)"
        unfolding rest_def using hd_dropWhile by blast
      have a: "\<forall>x\<in>set (32 # t). x = 32 \<or> (x \<in> set s \<and> \<not> p x)"
        using ih sub Cons by auto
      have b: "no_double_space (32 # t)"
      proof (cases t)
        case Nil
        then show ?thesis by simp
      next
        case (Cons b t')
        with ih h have "b \<noteq> 32" by auto
        with ih Cons show ?thesis by simp
      qed
      have c: "s \<noteq> [] \<and> ((32::nat) = 32 \<longleftrightarrow> p (hd s))"
        using True Cons by simp
      show ?thesis
        unfolding e using a b c by simp
    next
      case False
      then have n: "c \<noteq> 32" using assms by auto
      define t where "t = re_sub w (rplus p) [32] (Some c) cs"
      have e: "re_sub w (rplus p) [32] prev s = c # t"
        using False Cons by (simp add: re_match_plus t_def)
      have len: "length cs < length s" using Cons by simp
      note ih = 1[rule_format, OF len, of "Some c", folded t_def]
      have a: "\<forall>x\<in>set (c # t). x = 32 \<or> (x \<in> set s \<and> \<not> p x)"
        using ih False Cons by auto
      have b: "no_double_space (c # t)"
        using ih n by (simp add: no_double_space_Cons)
      have c: "s \<noteq> [] \<and> (c = 32 \<longleftrightarrow> p (hd s))"
        using False n Cons by simp
      show ?thesis
        unfolding e using a b c by simp
    qed
  qed
qed



lemma is_space_32: "is_space L 32"
  by (simp add: is_space_def)


lemma py_space: "py '' '' = [32]"
  by (simp add: py_def)






section \<open>The empty input\<close>

lemma py_re_sub_space_no_letter:
  assumes "\<forall>c\<in>set s. \<not> is_ascii_lower c \<and> \<not> is_ascii_upper c"
  shows "\<forall>c\<in>set (py_re_sub L r (py '' '') s). \<not> is_ascii_lower c \<and> \<not> is_ascii_upper c"
proof
  fix c assume "c \<in> set (py_re_sub L r (py '' '') s)"
  then have "c \<in> set s \<union> set (py '' '')"
    using re_sub_set unfolding py_re_sub_def by blast
  then show "\<not> is_ascii_lower c \<and> \<not> is_ascii_upper c"
    using assms by (auto simp: py_def is_ascii_upper_def is_ascii_lower_def)
qed

lemma py_strip_all_space:
  assumes "\<forall>x\<in>set s. is_space L x"
  shows "py_strip L s = []"
proof -
  have d: "dropWhile (is_space L) s = []"
    using assms by (induction s) auto
  show ?thesis
    unfolding py_strip_def d by simp
qed

text \<open>A text whose lowercase form has no ASCII letter is cleaned to the empty string.\<close>

lemma clean_text_no_letters:
  assumes "\<forall>c\<in>set (py_lower L text). \<not> is_ascii_lower c \<and> \<not> is_ascii_upper c"
  shows "clean_text_harmonized L (PyStr text) = Inr []"
proof -
  define t0 where "t0 = py_lower L text"
  define t1 where "t1 = py_re_sub L (pat_noise L) (py '' '') t0"
  define t2 where "t2 = py_re_sub L (pat_numbered L) (py '' '') t1"
  define t3 where "t3 = py_re_sub L (pat_punct L) (py '' '') t2"
  define t4 where "t4 = py_re_sub L (pat_digits L) (py '' '') t3"
  define t5 where "t5 = py_re_sub L (pat_nonletter L) (py '' '') t4"
  define t6 where "t6 = py_re_sub L (pat_spaces L) (py '' '') t5"
  have r: "clean_text_harmonized L (PyStr text) = Inr (py_strip L t6)"
    by (simp add: clean_text_harmonized_def ebind_def Let_def t0_def t1_def t2_def t3_def t4_def
        t5_def t6_def)
  have "\<forall>c\<in>set t0. \<not> is_ascii_lower c \<and> \<not> is_ascii_upper c"
    unfolding t0_def by (rule assms)
  then have "\<forall>c\<in>set t1. \<not> is_ascii_lower c \<and> \<not> is_ascii_upper c"
    unfolding t1_def by (rule py_re_sub_space_no_letter)
  then have "\<forall>c\<in>set t2. \<not> is_ascii_lower c \<and> \<not> is_ascii_upper c"
    unfolding t2_def by (rule py_re_sub_space_no_letter)
  then have "\<forall>c\<in>set t3. \<not> is_ascii_lower c \<and> \<not> is_ascii_upper c"
    unfolding t3_def by (rule py_re_sub_space_no_letter)
  then have u4: "\<forall>c\<in>set t4. \<not> is_ascii_lower c \<and> \<not> is_ascii_upper c"
    unfolding t4_def by (rule py_re_sub_space_no_letter)
  have "t5 = concat (map (\<lambda>c. if non_letter L c then [32] else [c]) t4)"
    by (simp add: t5_def py_re_sub_def pat_nonletter_def re_sub_Cls py_space)
  then have c5: "\<forall>x\<in>set t5. is_space L x"
    using u4 is_space_32 by (auto simp: non_letter_def split: if_splits)
  have t6_eq: "t6 = re_sub (is_word L) (rplus (is_space L)) [32] None t5"
    by (simp add: t6_def py_re_sub_def pat_spaces_def py_space)
  note p = re_sub_plus_space[where p = "is_space L" and w = "is_word L" and prev = None and s = t5,
      OF is_space_32, folded t6_eq]
  from p c5 have "\<forall>x\<in>set t6. x = 32"
    by blast
  then have "\<forall>x\<in>set t6. is_space L x"
    using is_space_32[of L] by auto
  then have "py_strip L t6 = []"
    by (rule py_strip_all_space)
  with r show ?thesis by simp
qed


lemma layered_predict_error_only_if_empty:
  assumes "layered_predict L M text = Inr (ErrorPayload p)"
  shows "clean_text_harmonized L text = Inr []"
proof (cases "clean_text_harmonized L text")
  case (Inl e)
  with assms show ?thesis by (simp add: layered_predict_def ebind_def)
next
  case c: (Inr text_clean)
  show ?thesis
  proof (rule ccontr)
    assume "clean_text_harmonized L text \<noteq> Inr []"
    with c have n: "text_clean \<noteq> []" by simp
    show False
    proof (cases "binary_stage L M text")
      case (Inl e)
      with c n assms show False
        by (simp add: layered_predict_def binary_stage_def ebind_def)
    next
      case (Inr t)
      obtain pred ct conf where t: "t = (pred, ct, conf)" by (cases t) auto
      show False
      proof (cases "60 \<le> ct")
        case True
        from layered_predict_true[OF c n Inr[unfolded t] True] assms show False by simp
      next
        case False
        then have "ct < 60" by simp
        from layered_predict_escalated[OF c n Inr[unfolded t] this] assms show False
          by (auto simp: ebind_def split: sum.splits prod.splits)
      qed
    qed
  qed
qed

text \<open>
  C8. For every input whose normalisation is the empty string, \<open>layered_predict\<close> returns
  exactly the payload \<open>{"error": "Input text is empty or contains only non-alphanumeric
  characters."}\<close>, whatever the vectorizer and the classifiers are; an error payload is
  returned in no other case; and a text whose lowercase form has no ASCII letter is such an
  input.
\<close>

theorem empty_input_short_circuit:
  "(clean_text_harmonized L text = Inr [] \<longrightarrow> layered_predict L M text = Inr empty_input_error) \<and>
   (\<forall>p. layered_predict L M text = Inr (ErrorPayload p) \<longrightarrow> clean_text_harmonized L text = Inr []) \<and>
   ((\<forall>c\<in>set (py_lower L s). \<not> is_ascii_lower c \<and> \<not> is_ascii_upper c) \<longrightarrow>
      layered_predict L M (PyStr s) = Inr empty_input_error)"
  using layered_predict_error_only_if_empty[of L M "text"] clean_text_no_letters[of L s]
  by (auto simp: layered_predict_def ebind_def)

lemma clean_empty_string: "clean_text_harmonized ascii_lib (PyStr (py '''')) = Inr []"
  by code_simp

lemma clean_only_non_letters:
  "clean_text_harmonized ascii_lib (PyStr (py ''12 ?! 3.5'')) = Inr []"
  by code_simp

theorem empty_input_short_circuit_witness:
  "clean_text_harmonized ascii_lib (PyStr (py '''')) = Inr [] \<and>
   layered_predict ascii_lib (demo_models (proba_model (85 / 100)) demo_granular) (PyStr (py '''')) =
     Inr empty_input_error \<and>
   layered_predict ascii_lib (demo_models (proba_model (85 / 100)) demo_granular) (PyStr (py ''12 ?! 3.5'')) =
     Inr empty_input_error \<and>
   layered_predict ascii_lib (demo_models (proba_model (85 / 100)) demo_granular) PyNone =
     Inr empty_input_error"
proof -
  let ?M = "demo_models (proba_model (85 / 100)) demo_granular"
  have n: "clean_text_harmonized ascii_lib PyNone = Inr []"
    by (simp add: clean_text_harmonized_def ebind_def)
  have l: "\<forall>c\<in>set (py_lower ascii_lib (py ''12 ?! 3.5'')). \<not> is_ascii_lower c \<and> \<not> is_ascii_upper c"
    by (simp add: py_lower_def lower_cp_def py_def is_ascii_upper_def is_ascii_lower_def)
  have a: "layered_predict ascii_lib ?M (PyStr (py '''')) = Inr empty_input_error"
    using conjunct1[OF empty_input_short_circuit[of ascii_lib "PyStr (py '''')" ?M]] clean_empty_string
    by blast
  have b: "layered_predict ascii_lib ?M (PyStr (py ''12 ?! 3.5'')) = Inr empty_input_error"
    using conjunct2[OF conjunct2[OF empty_input_short_circuit[of ascii_lib _ ?M "py ''12 ?! 3.5''"]]] l
    by blast
  have c: "layered_predict ascii_lib ?M PyNone = Inr empty_input_error"
    using conjunct1[OF empty_input_short_circuit[of ascii_lib PyNone ?M]] n
    by blast
  from clean_empty_string a b c show ?thesis by blast
qed


section \<open>Per-class confidences\<close>

subsection \<open>Rounding\<close>

lemma round_half_even_near: "\<bar>of_int (round_half_even y) - y\<bar> \<le> 1 / 2"
proof -
  have "of_int \<lfloor>y\<rfloor> \<le> y" "y < of_int \<lfloor>y\<rfloor> + 1"
    by linarith+
  then show ?thesis
    by (auto simp: round_half_even_def Let_def)
qed

lemma round_half_even_lower: "0 \<le> y \<Longrightarrow> 0 \<le> round_half_even y"
  by (auto simp: round_half_even_def Let_def)

lemma round_half_even_upper:
  assumes "y \<le> of_int n"
  shows "round_half_even y \<le> n"
proof -
  have f: "\<lfloor>y\<rfloor> \<le> n" using assms by (simp add: floor_le_iff)
  show ?thesis
  proof (cases "\<lfloor>y\<rfloor> = n")
    case True
    then have "y = of_int \<lfloor>y\<rfloor>" using assms by linarith
    then have "y - of_int \<lfloor>y\<rfloor> = 0" by simp
    then show ?thesis using True by (simp add: round_half_even_def Let_def)
  next
    case False
    with f have "\<lfloor>y\<rfloor> + 1 \<le> n" by simp
    then show ?thesis by (auto simp: round_half_even_def Let_def)
  qed
qed

lemma py_round_2_range:
  assumes "0 \<le> x" and "x \<le> 100"
  shows "0 \<le> py_round x 2 \<and> py_round x 2 \<le> 100"
proof -
  have "0 \<le> x * 100" using assms by simp
  then have l: "0 \<le> round_half_even (x * 10 ^ 2)"
    using round_half_even_lower by simp
  have "x * 10 ^ 2 \<le> of_int 10000" using assms by simp
  then have "round_half_even (x * 10 ^ 2) \<le> 10000"
    by (rule round_half_even_upper)
  then have u: "(of_int (round_half_even (x * 10 ^ 2)) :: real) \<le> 10000"
    by linarith
  from l u show ?thesis
    by (simp add: py_round_def)
qed

lemma py_round_2_near: "\<bar>py_round x 2 - x\<bar> \<le> 1 / 200"
proof -
  have "\<bar>of_int (round_half_even (x * 100)) - x * 100\<bar> \<le> 1 / 2"
    by (rule round_half_even_near)
  then have "\<bar>of_int (round_half_even (x * 100)) / 100 - x\<bar> \<le> 1 / 200"
    by (simp add: abs_le_iff field_simps)
  then show ?thesis
    by (simp add: py_round_def)
qed

subsection \<open>The dictionary comprehension\<close>

lemma set_update_subset: "set (AList.update k v al) \<subseteq> insert (k, v) (set al)"
  by (induction al) auto

lemma set_foldl_update:
  "set (foldl (\<lambda>d (k, v). AList.update k v d) d ps) \<subseteq> set d \<union> set ps"
proof (induction ps arbitrary: d)
  case Nil
  then show ?case by simp
next
  case (Cons a ps)
  obtain k v where a: "a = (k, v)" by (cases a)
  have "set (foldl (\<lambda>d (k, v). AList.update k v d) (AList.update k v d) ps)
      \<subseteq> set (AList.update k v d) \<union> set ps"
    by (rule Cons.IH)
  with set_update_subset[of k v d] show ?case
    unfolding a by auto
qed

lemma set_dict_of: "set (dict_of ps) \<subseteq> set ps"
  using set_foldl_update[of "[]" ps] by (simp add: dict_of_def)

lemma update_fresh: "k \<notin> fst ` set al \<Longrightarrow> AList.update k v al = al @ [(k, v)]"
  by (induction al) auto

lemma foldl_update_distinct:
  "distinct (map fst (d @ ps)) \<Longrightarrow> foldl (\<lambda>d (k, v). AList.update k v d) d ps = d @ ps"
proof (induction ps arbitrary: d)
  case Nil
  then show ?case by simp
next
  case (Cons a ps)
  obtain k v where a: "a = (k, v)" by (cases a)
  from Cons.prems have fresh: "k \<notin> fst ` set d"
    unfolding a by auto
  from Cons.prems have "distinct (map fst ((d @ [(k, v)]) @ ps))"
    unfolding a by simp
  then have "foldl (\<lambda>d (k, v). AList.update k v d) (d @ [(k, v)]) ps = (d @ [(k, v)]) @ ps"
    by (rule Cons.IH)
  then show ?case
    unfolding a by (simp add: update_fresh[OF fresh])
qed

lemma dict_of_distinct: "distinct (map fst ps) \<Longrightarrow> dict_of ps = ps"
  using foldl_update_distinct[of "[]" ps] by (simp add: dict_of_def)

lemma class_confidences_range:
  assumes "\<forall>p\<in>set probs. 0 \<le> p \<and> p \<le> 1"
  shows "values_in_range (class_confidences cls probs)"
proof -
  have "0 \<le> v \<and> v \<le> 100" if "(k, v) \<in> set (class_confidences cls probs)" for k v
  proof -
    from that set_dict_of have
      "(k, v) \<in> set (map (\<lambda>(c, p). (strip_quotes c, py_round (p * 100) 2)) (zip cls probs))"
      unfolding class_confidences_def by blast
    then obtain c p where "(c, p) \<in> set (zip cls probs)" and v: "v = py_round (p * 100) 2"
      by auto
    then have "p \<in> set probs" by (meson set_zip_rightD)
    with assms have "0 \<le> p * 100" "p * 100 \<le> 100" by auto
    then show ?thesis unfolding v by (rule py_round_2_range)
  qed
  then show ?thesis
    by (auto simp: values_in_range_def list_all_iff)
qed

lemma sum_list_round_near:
  "\<bar>sum_list (map (\<lambda>p. py_round (p * 100) 2) probs) - sum_list probs * 100\<bar>
     \<le> real (length probs) / 200"
proof (induction probs)
  case Nil
  then show ?case by simp
next
  case (Cons p probs)
  define a where "a = py_round (p * 100) 2 - p * 100"
  define b where "b = sum_list (map (\<lambda>p. py_round (p * 100) 2) probs) - sum_list probs * 100"
  have ha: "\<bar>a\<bar> \<le> 1 / 200"
    unfolding a_def by (rule py_round_2_near)
  have hb: "\<bar>b\<bar> \<le> real (length probs) / 200"
    unfolding b_def by (rule Cons.IH)
  have "sum_list (map (\<lambda>p. py_round (p * 100) 2) (p # probs)) - sum_list (p # probs) * 100 = a + b"
    by (simp add: a_def b_def algebra_simps)
  moreover have "\<bar>a + b\<bar> \<le> real (length (p # probs)) / 200"
    using ha hb by (simp add: add_divide_distrib)
  ultimately show ?case by simp
qed

lemma class_confidences_sum:
  assumes "sum_list probs = 1" and "length cls = length probs"
    and "distinct (map strip_quotes cls)"
  shows "\<bar>sum_list (map snd (class_confidences cls probs)) - 100\<bar> \<le> real (length probs) / 200"
proof -
  let ?ps = "map (\<lambda>(c, p). (strip_quotes c, py_round (p * 100) 2)) (zip cls probs)"
  have k: "map fst ?ps = map strip_quotes cls"
    using assms(2) by (induction cls probs rule: list_induct2) auto
  have v: "map snd ?ps = map (\<lambda>p. py_round (p * 100) 2) probs"
    using assms(2) by (induction cls probs rule: list_induct2) auto
  have "class_confidences cls probs = ?ps"
    unfolding class_confidences_def using assms(3) k by (simp add: dict_of_distinct)
  then have "map snd (class_confidences cls probs) = map (\<lambda>p. py_round (p * 100) 2) probs"
    using v by (simp only:)
  then show ?thesis
    using sum_list_round_near[of probs] assms(1) by simp
qed

subsection \<open>The softmax approximation\<close>

lemma elem_le_sum_list_real:
  fixes xs :: "real list"
  assumes "\<forall>x\<in>set xs. 0 \<le> x" and "x \<in> set xs"
  shows "x \<le> sum_list xs"
  using assms
proof (induction xs)
  case Nil
  then show ?case by simp
next
  case (Cons a xs)
  have "0 \<le> sum_list xs"
    using Cons.prems(1) by (simp add: sum_list_nonneg)
  with Cons show ?case by auto
qed

lemma softmax_distribution:
  assumes "ds \<noteq> []"
  shows "(\<forall>p\<in>set (softmax ds). 0 \<le> p \<and> p \<le> 1) \<and> sum_list (softmax ds) = 1 \<and>
         length (softmax ds) = length ds"
proof -
  define e_x where "e_x = map (\<lambda>d. exp (d - np_max ds)) ds"
  define S where "S = sum_list e_x"
  have sm: "softmax ds = map (\<lambda>e. e / S) e_x"
    by (simp add: softmax_def Let_def e_x_def S_def)
  have pos: "\<forall>e\<in>set e_x. 0 < e"
    by (auto simp: e_x_def)
  then have nonneg: "\<forall>e\<in>set e_x. 0 \<le> e"
    by (simp add: less_imp_le)
  from assms obtain d r where "ds = d # r" by (cases ds) auto
  then have "hd e_x \<in> set e_x"
    by (simp add: e_x_def)
  with pos nonneg have Spos: "0 < S"
    unfolding S_def using elem_le_sum_list_real[OF nonneg] by (meson less_le_trans)
  have r: "\<forall>p\<in>set (softmax ds). 0 \<le> p \<and> p \<le> 1"
  proof
    fix p assume "p \<in> set (softmax ds)"
    then obtain e where e: "e \<in> set e_x" and p: "p = e / S"
      unfolding sm by auto
    from e have "e \<le> S" unfolding S_def by (rule elem_le_sum_list_real[OF nonneg])
    with e nonneg Spos show "0 \<le> p \<and> p \<le> 1"
      unfolding p by simp
  qed
  have "sum_list (map (\<lambda>e. e / S) e_x) = sum_list e_x / S"
    by (induction e_x) (simp_all add: add_divide_distrib)
  then have s: "sum_list (softmax ds) = 1"
    using Spos by (simp add: sm S_def)
  have l: "length (softmax ds) = length ds"
    by (simp add: sm e_x_def)
  from r s l show ?thesis by blast
qed


subsection \<open>The two producers of a mapping\<close>

lemma fallback_mapping:
  assumes "get_svc_confidence_fallback model vector = Inr (lbl, ct, cp, Some d)"
  shows "\<exists>df ds. decision_function model = Some df \<and> df vector = Vector ds \<and> ds \<noteq> [] \<and>
           d = class_confidences (classes model) (softmax ds)"
  using assms
  by (auto simp: get_svc_confidence_fallback_def ebind_def Let_def np_argmax_def
      split: option.splits decision.splits sum.splits list.splits)

lemma proba_mapping:
  assumes "predict_proba gm = Some proba" and "granular_scores gm v = Inr (gl, gtop, conf_all)"
  shows "conf_all = FConf (class_confidences (classes gm) (proba v))"
  using assms
  by (auto simp: granular_scores_def ebind_def Let_def split: sum.splits)

lemma sum_close_if_few:
  assumes "\<bar>sum_list (map snd d) - 100\<bar> \<le> real n / 200" and "n \<le> 20"
  shows "sum_close_to_100 d"
proof -
  have "real n / 200 \<le> 1 / 10" using assms(2) by simp
  with assms(1) show ?thesis
    unfolding sum_close_to_100_def by linarith
qed

text \<open>
  C4. Whenever a per-class mapping is produced, on the softmax fallback path or
  on the \<open>predict_proba\<close> path (whose probabilities are taken to lie in \<open>[0, 1]\<close>), every
  value of the mapping lies in \<open>[0, 100]\<close>. The sum of the values is within \<open>0.1\<close> of \<open>100\<close>
  when the probabilities sum to one, there is one class label per probability, the labels
  stay pairwise distinct after the quotes are stripped, and there are at most 20 classes.
\<close>

theorem per_class_mapping_distribution:
  "(get_svc_confidence_fallback model vector = Inr (lbl, ct, cp, Some d) \<longrightarrow>
      values_in_range d \<and>
      (decision_function model = Some df \<and> df vector = Vector ds \<and>
       length (classes model) = length ds \<and> distinct (map strip_quotes (classes model)) \<and>
       length ds \<le> 20 \<longrightarrow> sum_close_to_100 d)) \<and>
   (predict_proba gm = Some proba \<and> granular_scores gm v = Inr (gl, gtop, conf_all) \<and>
    (\<forall>p\<in>set (proba v). 0 \<le> p \<and> p \<le> 1) \<longrightarrow>
      (\<exists>d'. conf_all = FConf d' \<and> values_in_range d' \<and>
         (sum_list (proba v) = 1 \<and> length (classes gm) = length (proba v) \<and>
          distinct (map strip_quotes (classes gm)) \<and> length (proba v) \<le> 20 \<longrightarrow>
          sum_close_to_100 d')))"
proof (intro conjI impI)
  assume a: "get_svc_confidence_fallback model vector = Inr (lbl, ct, cp, Some d)"
  from fallback_mapping[OF a] obtain df' ds' where
    m: "decision_function model = Some df'" "df' vector = Vector ds'" "ds' \<noteq> []"
       "d = class_confidences (classes model) (softmax ds')"
    by blast
  note sd = softmax_distribution[OF m(3)]
  from sd show "values_in_range d"
    unfolding m(4) by (simp add: class_confidences_range)
  assume b: "decision_function model = Some df \<and> df vector = Vector ds \<and>
       length (classes model) = length ds \<and> distinct (map strip_quotes (classes model)) \<and>
       length ds \<le> 20"
  with m have e: "ds' = ds" by simp
  from b sd have "\<bar>sum_list (map snd d) - 100\<bar> \<le> real (length (softmax ds)) / 200"
    unfolding m(4) e by (intro class_confidences_sum) simp_all
  then show "sum_close_to_100 d"
    using b sd unfolding e by (intro sum_close_if_few[where n = "length (softmax ds)"]) simp_all
next
  assume a: "predict_proba gm = Some proba \<and> granular_scores gm v = Inr (gl, gtop, conf_all) \<and>
    (\<forall>p\<in>set (proba v). 0 \<le> p \<and> p \<le> 1)"
  then have a1: "predict_proba gm = Some proba"
    and a2: "granular_scores gm v = Inr (gl, gtop, conf_all)"
    by simp_all
  have c: "conf_all = FConf (class_confidences (classes gm) (proba v))"
    by (rule proba_mapping[OF a1 a2])
  have r: "values_in_range (class_confidences (classes gm) (proba v))"
    using a by (simp add: class_confidences_range)
  have s: "sum_close_to_100 (class_confidences (classes gm) (proba v))"
    if b: "sum_list (proba v) = 1 \<and> length (classes gm) = length (proba v) \<and>
          distinct (map strip_quotes (classes gm)) \<and> length (proba v) \<le> 20"
  proof -
    from b have "\<bar>sum_list (map snd (class_confidences (classes gm) (proba v))) - 100\<bar>
        \<le> real (length (proba v)) / 200"
      by (intro class_confidences_sum) simp_all
    then show ?thesis
      using b by (intro sum_close_if_few[where n = "length (proba v)"]) simp_all
  qed
  from c r s show "\<exists>d'. conf_all = FConf d' \<and> values_in_range d' \<and>
         (sum_list (proba v) = 1 \<and> length (classes gm) = length (proba v) \<and>
          distinct (map strip_quotes (classes gm)) \<and> length (proba v) \<le> 20 \<longrightarrow>
          sum_close_to_100 d')"
    by blast
qed

lemma softmax_equal_margins: "softmax [0, 0] = [1 / 2, 1 / 2]"
  by (simp add: softmax_def np_max_def Let_def)

lemma py_round_50: "py_round 50 2 = 50"
  by (simp add: py_round_def round_half_even_def)

lemma fallback_margin_granular:
  "get_svc_confidence_fallback margin_granular (py '''') =
     Inr (LStr (py ''bias''), None, 50, Some [(py ''bias'', 50), (py ''satire'', 50)])"
  by (simp add: get_svc_confidence_fallback_def margin_granular_def ebind_def np_argmax_def
      py_nth_def Let_def softmax_equal_margins class_confidences_def dict_of_def py_round_50
      strip_quotes_def py_strip_char_def py_def)

lemma granular_scores_demo:
  "granular_scores demo_granular (py '''') =
     Inr (LStr (py ''satire''), 75, FConf [(py ''bias'', 25), (py ''satire'', 75)])"
  by (simp add: granular_scores_def demo_granular_def ebind_def py_nth_def Let_def
      class_confidences_def dict_of_def strip_quotes_def py_strip_char_def py_def py_round_def
      round_half_even_def)

theorem per_class_mapping_distribution_witness:
  "get_svc_confidence_fallback margin_granular (py '''') =
     Inr (LStr (py ''bias''), None, 50, Some [(py ''bias'', 50), (py ''satire'', 50)]) \<and>
   values_in_range [(py ''bias'', 50), (py ''satire'', 50)] \<and>
   sum_close_to_100 [(py ''bias'', 50), (py ''satire'', 50)] \<and>
   granular_scores demo_granular (py '''') =
     Inr (LStr (py ''satire''), 75, FConf [(py ''bias'', 25), (py ''satire'', 75)]) \<and>
   values_in_range [(py ''bias'', 25), (py ''satire'', 75)] \<and>
   sum_close_to_100 [(py ''bias'', 25), (py ''satire'', 75)]"
proof -
  note T = per_class_mapping_distribution[where model = margin_granular and vector = "py ''''"
      and lbl = "LStr (py ''bias'')" and ct = None and cp = 50
      and d = "[(py ''bias'', 50), (py ''satire'', 50)]"
      and df = "\<lambda>v. Vector [0, 0]" and ds = "[0, 0]"
      and gm = demo_granular and proba = "\<lambda>v. [1 / 4, 3 / 4]" and v = "py ''''"
      and gl = "LStr (py ''satire'')" and gtop = 75
      and conf_all = "FConf [(py ''bias'', 25), (py ''satire'', 75)]"]
  have d: "distinct (map strip_quotes [py ''bias'', py ''satire''])"
    by (simp add: strip_quotes_def py_strip_char_def py_def)
  have h1: "decision_function margin_granular = Some (\<lambda>v. Vector [0, 0]) \<and>
      (\<lambda>v::pystr. Vector [0, 0]) (py '''') = Vector [0, 0] \<and>
      length (classes margin_granular) = length [0::real, 0] \<and>
      distinct (map strip_quotes (classes margin_granular)) \<and> length [0::real, 0] \<le> 20"
    using d by (simp add: margin_granular_def)
  have h2: "predict_proba demo_granular = Some (\<lambda>v. [1 / 4, 3 / 4]) \<and>
      granular_scores demo_granular (py '''') =
        Inr (LStr (py ''satire''), 75, FConf [(py ''bias'', 25), (py ''satire'', 75)]) \<and>
      (\<forall>p\<in>set ((\<lambda>v::pystr. [1 / 4, 3 / 4 :: real]) (py '''')). 0 \<le> p \<and> p \<le> 1)"
    using granular_scores_demo by (simp add: demo_granular_def)
  have h3: "sum_list ((\<lambda>v::pystr. [1 / 4, 3 / 4 :: real]) (py '''')) = 1 \<and>
      length (classes demo_granular) = length ((\<lambda>v::pystr. [1 / 4, 3 / 4 :: real]) (py '''')) \<and>
      distinct (map strip_quotes (classes demo_granular)) \<and>
      length ((\<lambda>v::pystr. [1 / 4, 3 / 4 :: real]) (py '''')) \<le> 20"
    using d by (simp add: demo_granular_def)
  from T fallback_margin_granular h1 have a:
    "values_in_range [(py ''bias'', 50), (py ''satire'', 50)] \<and>
     sum_close_to_100 [(py ''bias'', 50), (py ''satire'', 50)]"
    by blast
  from T h2 h3 have b:
    "values_in_range [(py ''bias'', 25), (py ''satire'', 75)] \<and>
     sum_close_to_100 [(py ''bias'', 25), (py ''satire'', 75)]"
    by blast
  from fallback_margin_granular granular_scores_demo a b show ?thesis by blast
qed

text \<open>
  C4, when two labels collapse, the sum is far from 100: the labels \<open>a\<close> and \<open>"a"\<close> with equal
  margins give the mapping \<open>{a: 50.0}\<close>, whose values sum to 50.
\<close>

theorem collapsed_labels_counterexample:
  "get_svc_confidence_fallback collapsing_granular (py '''') =
     Inr (LStr [97], None, 50, Some [([97], 50)]) \<and>
   \<not> sum_close_to_100 [([97], 50)]"
  by (simp add: get_svc_confidence_fallback_def collapsing_granular_def ebind_def np_argmax_def
      py_nth_def Let_def softmax_equal_margins class_confidences_def dict_of_def py_round_50
      strip_quotes_def py_strip_char_def sum_close_to_100_def)


section \<open>The attribution lists\<close>

lemma feature_entries_Inr:
  assumes "feature_entries names coefs keep idx = Inr es"
  shows "es = map (feature_entry names coefs) (filter (\<lambda>i. keep (names ! i)) idx)"
  using assms
proof (induction idx arbitrary: es)
  case Nil
  then show ?case by simp
next
  case (Cons i idx)
  show ?case
  proof (cases "keep (names ! i)")
    case True
    with Cons.prems obtain rest where
      r: "feature_entries names coefs keep idx = Inr rest"
      and e: "es = (names ! i, py_round (coefs ! i) 4) # rest"
      by (auto simp: ebind_def py_nth_def split: if_splits sum.splits)
    from Cons.IH[OF r] e True show ?thesis
      by (simp add: feature_entry_def)
  next
    case False
    with Cons.prems have "feature_entries names coefs keep idx = Inr es"
      by (auto simp: ebind_def py_nth_def split: if_splits sum.splits)
    from Cons.IH[OF this] False show ?thesis by simp
  qed
qed

lemma top_features_Inr:
  assumes "coef gm = Some rows" and "top_features L gm gv gl text_clean = Inr (fi, fo)"
  shows "\<exists>class_idx.
           label_index (classes gm) gl = Inr class_idx \<and> class_idx < length rows \<and>
           fo = FFeats (map (feature_entry (get_feature_names_out gv) (rows ! class_idx))
                  (take 10 (rev (last_n 200 (np_argsort L (rows ! class_idx)))))) \<and>
           fi = FFeats (take 10 (map (feature_entry (get_feature_names_out gv) (rows ! class_idx))
                  (filter (\<lambda>i. get_feature_names_out gv ! i \<in> set (py_split L text_clean))
                     (rev (last_n 200 (np_argsort L (rows ! class_idx)))))))"
proof -
  from assms obtain class_idx where
    c: "label_index (classes gm) gl = Inr class_idx"
    by (cases "label_index (classes gm) gl") (auto simp: top_features_def ebind_def)
  from assms c have lt: "class_idx < length rows"
    by (auto simp: top_features_def ebind_def py_nth_def split: if_splits)
  define coefs where "coefs = rows ! class_idx"
  define window where "window = rev (last_n 200 (np_argsort L coefs))"
  define names where "names = get_feature_names_out gv"
  from assms c lt obtain inp where
    i: "feature_entries names coefs (\<lambda>t. t \<in> set (py_split L text_clean)) window = Inr inp"
    by (cases "feature_entries names coefs (\<lambda>t. t \<in> set (py_split L text_clean)) window")
       (auto simp: top_features_def ebind_def py_nth_def Let_def coefs_def window_def names_def)
  from assms c lt i obtain glob where
    g: "feature_entries names coefs (\<lambda>t. True) (take 10 window) = Inr glob"
    by (cases "feature_entries names coefs (\<lambda>t. True) (take 10 window)")
       (auto simp: top_features_def ebind_def py_nth_def Let_def coefs_def window_def names_def)
  from assms c lt i g have r: "fi = FFeats (take 10 inp)" "fo = FFeats glob"
    by (auto simp: top_features_def ebind_def py_nth_def Let_def coefs_def window_def names_def)
  from feature_entries_Inr[OF i] feature_entries_Inr[OF g] r c lt show ?thesis
    by (auto simp: coefs_def window_def names_def)
qed

text \<open>The ranked window of a valid \<open>argsort\<close>.\<close>

lemma ranked_window:
  assumes "is_argsort coefs idx"
  defines "window \<equiv> rev (last_n 200 idx)"
  shows "length window = min 200 (length coefs)"
    and "distinct window"
    and "set window \<subseteq> {..<length coefs}"
    and "sorted (rev (map (\<lambda>i. coefs ! i) window))"
    and "\<forall>j<length coefs. j \<notin> set window \<longrightarrow> (\<forall>i\<in>set window. coefs ! j \<le> coefs ! i)"
proof -
  define k where "k = length idx - 200"
  from assms(1) have s: "sort idx = [0..<length coefs]"
    and o: "sorted (map (\<lambda>i. coefs ! i) idx)"
    by (simp_all add: is_argsort_def)
  have len: "length idx = length coefs"
    using s by (metis length_sort length_upt diff_zero)
  have set_idx: "set idx = {..<length coefs}"
    using s by (metis set_sort set_upt atLeast_upt)
  have dist: "distinct idx"
    using s by (metis distinct_sort distinct_upt)
  have w: "window = rev (drop k idx)"
    by (simp add: window_def last_n_def k_def)
  have split: "idx = take k idx @ drop k idx"
    by simp
  show "length window = min 200 (length coefs)"
    unfolding w using len by (simp add: k_def min_def)
  show "distinct window"
    unfolding w using dist by simp
  show "set window \<subseteq> {..<length coefs}"
    unfolding w using set_idx set_drop_subset by fastforce
  have so: "sorted (map (\<lambda>i. coefs ! i) (take k idx) @ map (\<lambda>i. coefs ! i) (drop k idx))"
    using o by (metis split map_append)
  then show "sorted (rev (map (\<lambda>i. coefs ! i) window))"
    unfolding w by (simp add: sorted_append rev_map)
  show "\<forall>j<length coefs. j \<notin> set window \<longrightarrow> (\<forall>i\<in>set window. coefs ! j \<le> coefs ! i)"
  proof (intro allI impI ballI)
    fix j i assume j: "j < length coefs" "j \<notin> set window" and i: "i \<in> set window"
    from j set_idx have "j \<in> set (take k idx) \<union> set (drop k idx)"
      by (metis split set_append lessThan_iff)
    with j(2) have "j \<in> set (take k idx)"
      unfolding w by simp
    moreover from i have "i \<in> set (drop k idx)"
      unfolding w by simp
    ultimately show "coefs ! j \<le> coefs ! i"
      using so by (auto simp: sorted_append)
  qed
qed


text \<open>
  C6. When the granular model has linear coefficients, \<open>top_features_input\<close> and
  \<open>top_features_overall\<close> of a response each have at most 10 entries.
  \<open>top_features_overall\<close> is the first 10 entries of the ranked window, and
  \<open>top_features_input\<close> is the first 10 window entries whose term occurs in the
  space-split normalised input, in ranked order; its terms are terms of the window. The
  window has at most 200 indices; for a valid \<open>argsort\<close> it holds the \<open>min 200 n\<close> indices
  of the largest coefficients of the predicted class, in descending order of coefficient.
\<close>

theorem attribution_lists:
  assumes "clean_text_harmonized L text = Inr text_clean" and "text_clean \<noteq> []"
    and "binary_stage L M text = Inr (pred, C_True, conf)"
    and "C_True < 60"
    and "layered_predict L M text = Inr (Result r)"
    and "coef (granular_model M) = Some rows"
  shows "\<exists>lbl class_idx fi fo.
     label_index (classes (granular_model M)) (LStr lbl) = Inr class_idx \<and>
     class_idx < length rows \<and>
     granular_prediction r = strip_quotes lbl \<and>
     top_features_input r = FFeats fi \<and> top_features_overall r = FFeats fo \<and>
     length fi \<le> 10 \<and> length fo \<le> 10 \<and>
     (let coefs = rows ! class_idx;
          names = get_feature_names_out (granular_vectorizer M);
          window = rev (last_n 200 (np_argsort L coefs))
      in fo = map (feature_entry names coefs) (take 10 window) \<and>
         fi = take 10 (map (feature_entry names coefs)
                (filter (\<lambda>i. names ! i \<in> set (py_split L text_clean)) window)) \<and>
         fst ` set fi \<subseteq> (\<lambda>i. names ! i) ` set window \<and>
         length window \<le> 200 \<and>
         (is_argsort coefs (np_argsort L coefs) \<longrightarrow>
            length window = min 200 (length coefs) \<and> distinct window \<and>
            set window \<subseteq> {..<length coefs} \<and>
            sorted (rev (map (\<lambda>i. coefs ! i) window)) \<and>
            (\<forall>j<length coefs. j \<notin> set window \<longrightarrow> (\<forall>i\<in>set window. coefs ! j \<le> coefs ! i))))"
proof -
  from escalation_fields_from_granular[OF assms(1-5)] obtain lbl where
    p: "granular_prediction r = strip_quotes lbl"
    and t: "top_features L (granular_model M) (granular_vectorizer M) (LStr lbl)
             text_clean = Inr (top_features_input r, top_features_overall r)"
    by auto
  from top_features_Inr[OF assms(6) t] obtain class_idx where
    c: "label_index (classes (granular_model M)) (LStr lbl) = Inr class_idx"
    and lt: "class_idx < length rows"
    and fo: "top_features_overall r =
       FFeats (map (feature_entry (get_feature_names_out (granular_vectorizer M)) (rows ! class_idx))
                  (take 10 (rev (last_n 200 (np_argsort L (rows ! class_idx))))))"
    and fi: "top_features_input r =
       FFeats (take 10 (map (feature_entry (get_feature_names_out (granular_vectorizer M)) (rows ! class_idx))
                  (filter (\<lambda>i. get_feature_names_out (granular_vectorizer M) ! i
                              \<in> set (py_split L text_clean))
                     (rev (last_n 200 (np_argsort L (rows ! class_idx)))))))"
    by blast
  define coefs where "coefs = rows ! class_idx"
  define names where "names = get_feature_names_out (granular_vectorizer M)"
  define window where "window = rev (last_n 200 (np_argsort L coefs))"
  define lo where "lo = map (feature_entry names coefs) (take 10 window)"
  define li where "li = take 10 (map (feature_entry names coefs)
                (filter (\<lambda>i. names ! i \<in> set (py_split L text_clean)) window))"
  have l1: "length li \<le> 10" and l2: "length lo \<le> 10"
    by (simp_all add: li_def lo_def)
  have sub: "fst ` set li \<subseteq> (\<lambda>i. names ! i) ` set window"
  proof
    fix x assume "x \<in> fst ` set li"
    then obtain e where "e \<in> set li" and x: "x = fst e" by blast
    then have "e \<in> set (map (feature_entry names coefs)
                (filter (\<lambda>i. names ! i \<in> set (py_split L text_clean)) window))"
      unfolding li_def by (meson in_set_takeD)
    then obtain i where "i \<in> set window" and "e = feature_entry names coefs i"
      by auto
    then show "x \<in> (\<lambda>i. names ! i) ` set window"
      unfolding x by (auto simp: feature_entry_def)
  qed
  have wl: "length window \<le> 200"
    by (simp add: window_def last_n_def)
  have ranked: "length window = min 200 (length coefs) \<and> distinct window \<and>
            set window \<subseteq> {..<length coefs} \<and>
            sorted (rev (map (\<lambda>i. coefs ! i) window)) \<and>
            (\<forall>j<length coefs. j \<notin> set window \<longrightarrow> (\<forall>i\<in>set window. coefs ! j \<le> coefs ! i))"
    if a: "is_argsort coefs (np_argsort L coefs)"
    unfolding window_def using ranked_window[OF a] by blast
  have body: "lo = map (feature_entry names coefs) (take 10 window) \<and>
         li = take 10 (map (feature_entry names coefs)
                (filter (\<lambda>i. names ! i \<in> set (py_split L text_clean)) window)) \<and>
         fst ` set li \<subseteq> (\<lambda>i. names ! i) ` set window \<and>
         length window \<le> 200 \<and>
         (is_argsort coefs (np_argsort L coefs) \<longrightarrow>
            length window = min 200 (length coefs) \<and> distinct window \<and>
            set window \<subseteq> {..<length coefs} \<and>
            sorted (rev (map (\<lambda>i. coefs ! i) window)) \<and>
            (\<forall>j<length coefs. j \<notin> set window \<longrightarrow> (\<forall>i\<in>set window. coefs ! j \<le> coefs ! i)))"
    using sub wl ranked by (simp add: lo_def li_def)
  have fi': "top_features_input r = FFeats li"
    unfolding fi li_def names_def coefs_def window_def ..
  have fo': "top_features_overall r = FFeats lo"
    unfolding fo lo_def names_def coefs_def window_def ..
  show ?thesis
    apply (rule exI[of _ lbl])
    apply (rule exI[of _ class_idx])
    apply (rule exI[of _ li])
    apply (rule exI[of _ lo])
    unfolding Let_def
    using c lt p fi' fo' l1 l2 body[unfolded coefs_def names_def window_def]
    unfolding coefs_def names_def window_def
    by blast
qed

lemma argsort_demo_valid:
  "is_argsort [3 / 2, 1 / 4, - (1 / 2)] (np_argsort ascii_lib [3 / 2, 1 / 4, - (1 / 2)])"
  by (simp add: argsort_demo is_argsort_def upt_conv_Cons)

theorem attribution_lists_witness:
  "is_argsort [3 / 2, 1 / 4, - (1 / 2)] (np_argsort ascii_lib [3 / 2, 1 / 4, - (1 / 2)]) \<and>
   layered_predict ascii_lib (demo_models (proba_model (55 / 100)) demo_granular) (PyStr (py ''Alpha news!'')) =
     Inr (Result \<lparr>
       binary_prediction = py ''Unknown / Borderline'',
       binary_confidence = 55,
       C_True_confidence = 55,
       granular_prediction = py ''satire'',
       granular_confidence_top = FNum 75,
       granular_confidence_all = FConf [(py ''bias'', 25), (py ''satire'', 75)],
       top_features_input = FFeats [(py ''alpha'', 3 / 2)],
       top_features_overall = FFeats [(py ''alpha'', 3 / 2), (py ''beta'', 1 / 4), (py ''gamma'', - 1 / 2)]\<rparr>) \<and>
   (\<exists>lbl class_idx fi fo.
     label_index (classes demo_granular) (LStr lbl) = Inr class_idx \<and>
     class_idx < length [[1 / 2, - 1, 2], [3 / 2, 1 / 4, - 1 / 2 :: real]] \<and>
     py ''satire'' = strip_quotes lbl \<and>
     FFeats [(py ''alpha'', 3 / 2)] = FFeats fi \<and>
     FFeats [(py ''alpha'', 3 / 2), (py ''beta'', 1 / 4), (py ''gamma'', - 1 / 2)] = FFeats fo \<and>
     length fi \<le> 10 \<and> length fo \<le> 10)"
proof -
  let ?M = "demo_models (proba_model (55 / 100)) demo_granular"
  note h1 = clean_alpha_news py_alpha_news_nonempty
  have h2: "binary_stage ascii_lib ?M (PyStr (py ''Alpha news!'')) = Inr (LInt 1, 55, 55)"
    by (simp add: binary_stage_proba)
  have h3: "(55::real) < 60" by simp
  have h5: "coef (granular_model ?M) = Some [[1 / 2, - 1, 2], [3 / 2, 1 / 4, - 1 / 2]]"
    by (simp add: demo_models_sel demo_granular_def)
  from attribution_lists[OF h1 h2 h3 layered_predict_demo_borderline h5]
  have e: "\<exists>lbl class_idx fi fo.
     label_index (classes demo_granular) (LStr lbl) = Inr class_idx \<and>
     class_idx < length [[1 / 2, - 1, 2], [3 / 2, 1 / 4, - 1 / 2 :: real]] \<and>
     py ''satire'' = strip_quotes lbl \<and>
     FFeats [(py ''alpha'', 3 / 2)] = FFeats fi \<and>
     FFeats [(py ''alpha'', 3 / 2), (py ''beta'', 1 / 4), (py ''gamma'', - 1 / 2)] = FFeats fo \<and>
     length fi \<le> 10 \<and> length fo \<le> 10"
    by (simp add: demo_models_sel) blast
  from argsort_demo_valid layered_predict_demo_borderline e show ?thesis
    by blast
qed


end
